theory Spec2Isabelle
  imports Complex_Main "HOL-Library.Sublist"
begin

section \<open>Conventions of the embedding\<close>

text \<open>
  The program is the trip planner of \<^verbatim>\<open>src/app.py\<close> with its providers under
  \<^verbatim>\<open>src/providers/\<close>.

  \<^item> A Python \<^verbatim>\<open>float\<close> is a \<^typ>\<open>real\<close>: the scoring formulas are read as exact
    arithmetic on finite numbers (no NaN, no infinity, no binary rounding). Properties
    that binary rounding can break are not stated of this reading; for
    \<^verbatim>\<open>budget_fit_score\<close> the rounded computation is defined beside it.
  \<^item> A Python \<^verbatim>\<open>int\<close> is an \<^typ>\<open>int\<close>.
  \<^item> A Python \<^verbatim>\<open>str\<close> is a \<^typ>\<open>string\<close> whose characters are the code points
    below 256; every literal of the source is in that range.
  \<^item> An exception is a value of \<open>error\<close>; a function that can raise returns
    \<open>error + 'a\<close> with \<open>Inl\<close> for the exception.
\<close>

datatype error = ValueError | ZeroDivisionError | KeyError | OverflowError

section \<open>Strings: \<^verbatim>\<open>str.lower\<close> and \<^verbatim>\<open>str.strip\<close>\<close>

text \<open>
  \<^verbatim>\<open>str.lower\<close> on code points below 256: the letters A..Z and the Latin-1
  capitals 0xC0..0xDE (without the multiplication sign 0xD7) move up by 32, every other
  code point stays.
\<close>

definition lower_char :: "char \<Rightarrow> char" where
  "lower_char c =
     (let n = of_char c :: nat
      in if (65 \<le> n \<and> n \<le> 90) \<or> (192 \<le> n \<and> n \<le> 222 \<and> n \<noteq> 215)
         then char_of (n + 32) else c)"

definition lower :: "string \<Rightarrow> string" where
  "lower s = map lower_char s"

text \<open>
  \<^verbatim>\<open>str.strip()\<close> removes leading and trailing white space; below 256 the white
  space code points are 9..13, 28..32, 0x85 and 0xA0.
\<close>

definition is_space :: "char \<Rightarrow> bool" where
  "is_space c =
     (let n = of_char c :: nat
      in (9 \<le> n \<and> n \<le> 13) \<or> (28 \<le> n \<and> n \<le> 32) \<or> n = 133 \<or> n = 160)"

definition strip :: "string \<Rightarrow> string" where
  "strip s = rev (dropWhile is_space (rev (dropWhile is_space s)))"

section \<open>Data model\<close>

text \<open>\<^verbatim>\<open>providers/mock.py\<close>, class StayListing.\<close>

record StayListing =
  listing_id :: string
  platform :: string
  name :: string
  area :: string
  nightly_price :: real
  rating :: real
  reviews :: int
  amenities :: "string list"
  url :: string
  distance_km_to_center :: real
  room_type :: string

text \<open>
  \<^verbatim>\<open>app.py\<close>, class TripInput. The pydantic field constraints
  (\<^verbatim>\<open>travelers: ge=1, le=20\<close>, \<^verbatim>\<open>nightly_budget: ge=10\<close>) are the predicate
  \<open>TripInput_valid\<close>; the functions below take any record.
\<close>

record TripInput =
  destination :: string
  start_date :: string
  end_date :: string
  travelers :: int
  nightly_budget :: real
  style :: string
  must_haves :: "string list"
  dealbreakers :: "string list"
  prefer_areas :: "string list"

definition TripInput_valid :: "TripInput \<Rightarrow> bool" where
  "TripInput_valid t =
     (1 \<le> travelers t \<and> travelers t \<le> 20 \<and> 10 \<le> nightly_budget t)"

section \<open>Scoring engine\<close>

definition clamp :: "real \<Rightarrow> real \<Rightarrow> real \<Rightarrow> real" where
  "clamp x lo hi = max lo (min hi x)"

definition normalize_rating :: "string \<Rightarrow> real \<Rightarrow> real" where
  "normalize_rating pf r =
     clamp (r / (if pf = ''booking'' then 10 else 5)) 0 1"

definition budget_fit_score :: "real \<Rightarrow> real \<Rightarrow> real" where
  "budget_fit_score price budget =
     (if price \<le> budget
      then clamp (0.85 + 0.15 * (1 - price / max budget (1 / 1000000))) 0 1
      else (let over = (price - budget) / max budget (1 / 1000000)
            in clamp (1 - 1.4 * over) 0 1))"

text \<open>
  \<^verbatim>\<open>1.0 / (1.0 + 0.35 * distance_km)\<close> raises ZeroDivisionError when the
  denominator is zero.
\<close>

definition location_score :: "real \<Rightarrow> error + real" where
  "location_score distance_km =
     (if 1 + 0.35 * distance_km = 0 then Inl ZeroDivisionError
      else Inr (clamp (1 / (1 + 0.35 * distance_km)) 0 1))"

text \<open>\<^verbatim>\<open>math.log10\<close> is only called on \<^verbatim>\<open>max(reviews, 1)\<close>, which is positive.\<close>

definition quality_score :: "string \<Rightarrow> real \<Rightarrow> int \<Rightarrow> real" where
  "quality_score pf r n =
     (let nr = normalize_rating pf r;
          conf = clamp (log 10 (of_int (max n 1)) / 3) 0 1
      in clamp (0.75 * nr + 0.25 * conf) 0 1)"

definition amenities_score :: "string list \<Rightarrow> string list \<Rightarrow> real" where
  "amenities_score listing_amenities musts =
     (if musts = [] then 0.7
      else (let have = set (map lower listing_amenities);
                need = map lower musts;
                hit = length (filter (\<lambda>m. m \<in> have) need)
            in clamp (of_nat hit / of_nat (max (length need) 1)) 0 1))"

definition dealbreaker_ok :: "string \<Rightarrow> string list \<Rightarrow> bool" where
  "dealbreaker_ok rt dbs =
     (let db = set (map lower dbs)
      in if ''shared_room'' \<in> db \<and> rt = ''shared_room'' then False
         else if ''private_room'' \<in> db \<and> rt = ''private_room'' then False
         else True)"

definition area_bonus :: "string \<Rightarrow> string list \<Rightarrow> real" where
  "area_bonus a prefs =
     (if prefs = [] then 0
      else (let p = map lower prefs in if lower a \<in> set p then 0.12 else 0))"

text \<open>
  The breakdown is a Python dict from the four keys to the sub-scores: a map.
\<close>

type_synonym parts = "string \<rightharpoonup> real"

definition score_listing :: "StayListing \<Rightarrow> TripInput \<Rightarrow> error + (real \<times> parts)" where
  "score_listing l trip =
     (let b = budget_fit_score (nightly_price l) (nightly_budget trip);
          q = quality_score (platform l) (rating l) (reviews l)
      in case location_score (distance_km_to_center l) of
           Inl e \<Rightarrow> Inl e
         | Inr loc \<Rightarrow>
             (let a = amenities_score (amenities l) (must_haves trip);
                  base = 0.40 * b + 0.25 * q + 0.20 * loc + 0.15 * a;
                  base' = clamp (base + area_bonus (area l) (prefer_areas trip)) 0 1
              in Inr (base' * 100,
                      [''budget'' \<mapsto> b, ''quality'' \<mapsto> q,
                       ''location'' \<mapsto> loc, ''amenities'' \<mapsto> a])))"

section \<open>Explanation generator\<close>

text \<open>
  Each explanation string is an f-string template filled with numbers of the listing.
  A line is modelled as the template chosen together with the values it is filled with;
  the rendering of a float as decimal text is not modelled.
  \<^item> \<open>Within_budget p b\<close>: "Within your nightly budget (p <= b)."
  \<^item> \<open>Over_budget d\<close>: "Over budget by d per night (stretch option)."
  \<^item> \<open>Strong_quality r n\<close>: "Strong quality signals (rating r with n reviews)."
  \<^item> \<open>Fewer_reviews\<close>: "Fewer reviews than ideal - treat this option with a bit more caution."
  \<^item> \<open>Solid_rating r n\<close>: "Solid rating (r) and review count (n)."
  \<^item> \<open>Convenient_location d\<close>: "Convenient location (~d km to center)."
  \<^item> \<open>Farther_location d\<close>: "Farther from the center (~d km) - better if you have transport."
  \<^item> \<open>Meets_all\<close>: "Meets all your must-have amenities."
  \<^item> \<open>Missing ms\<close>: "Missing: " followed by \<open>ms\<close> joined with ", " and a full stop.
\<close>

datatype why_line =
    Within_budget real real
  | Over_budget real
  | Strong_quality real int
  | Fewer_reviews
  | Solid_rating real int
  | Convenient_location real
  | Farther_location real
  | Meets_all
  | Missing "string list"

text \<open>\<^verbatim>\<open>parts["quality"]\<close> and \<^verbatim>\<open>parts["location"]\<close> raise KeyError on a missing key.\<close>

definition explain_listing :: "StayListing \<Rightarrow> TripInput \<Rightarrow> parts \<Rightarrow> error + why_line list" where
  "explain_listing l trip ps =
     (let why1 = [if nightly_price l \<le> nightly_budget trip
                  then Within_budget (nightly_price l) (nightly_budget trip)
                  else Over_budget (nightly_price l - nightly_budget trip)]
      in case ps ''quality'' of
           None \<Rightarrow> Inl KeyError
         | Some q \<Rightarrow>
             (let why2 = why1 @
                    [if 0.8 \<le> q then Strong_quality (rating l) (reviews l)
                     else if reviews l < 50 then Fewer_reviews
                     else Solid_rating (rating l) (reviews l)]
              in case ps ''location'' of
                   None \<Rightarrow> Inl KeyError
                 | Some loc \<Rightarrow>
                     (let why3 = why2 @
                            [if 0.6 \<le> loc then Convenient_location (distance_km_to_center l)
                             else Farther_location (distance_km_to_center l)]
                      in if must_haves trip \<noteq> []
                         then (let missing =
                                     filter (\<lambda>m. lower m \<notin> set (map lower (amenities l)))
                                       (must_haves trip)
                               in if missing = [] then Inr (why3 @ [Meets_all])
                                  else Inr (why3 @ [Missing missing]))
                         else Inr why3)))"

section \<open>Calendar dates (\<^verbatim>\<open>datetime.date\<close>)\<close>

text \<open>
  The standard library's proleptic Gregorian dates, years 1 to 9999: a date is its
  year, month and day; its ordinal counts days from 0001-01-01 = 1.
\<close>

record date =
  year :: int
  month :: int
  day :: int

definition is_leap :: "int \<Rightarrow> bool" where
  "is_leap y = (y mod 4 = 0 \<and> (y mod 100 \<noteq> 0 \<or> y mod 400 = 0))"

definition days_before_year :: "int \<Rightarrow> int" where
  "days_before_year y = (let k = y - 1 in k * 365 + k div 4 - k div 100 + k div 400)"

definition DAYS_IN_MONTH :: "int list" where
  "DAYS_IN_MONTH = [31, 28, 31, 30, 31, 30, 31, 31, 30, 31, 30, 31]"

definition days_in_month :: "int \<Rightarrow> int \<Rightarrow> int" where
  "days_in_month y m =
     (if m = 2 \<and> is_leap y then 29 else DAYS_IN_MONTH ! nat (m - 1))"

definition days_before_month :: "int \<Rightarrow> int \<Rightarrow> int" where
  "days_before_month y m =
     sum_list (take (nat (m - 1)) DAYS_IN_MONTH) + (if 2 < m \<and> is_leap y then 1 else 0)"

definition toordinal :: "date \<Rightarrow> int" where
  "toordinal d = days_before_year (year d) + days_before_month (year d) (month d) + day d"

definition MAXORDINAL :: int where
  "MAXORDINAL = 3652059"

text \<open>The inverse of \<open>toordinal\<close>, as the standard library computes it.\<close>

definition ord2ymd :: "int \<Rightarrow> date" where
  "ord2ymd n0 =
     (let n = n0 - 1;
          n400 = n div 146097; n = n mod 146097;
          n100 = n div 36524; n = n mod 36524;
          n4 = n div 1461; n = n mod 1461;
          n1 = n div 365; n = n mod 365;
          y = n400 * 400 + 1 + n100 * 100 + n4 * 4 + n1
      in if n1 = 4 \<or> n100 = 4 then \<lparr>year = y - 1, month = 12, day = 31\<rparr>
         else (let leapyear = (n1 = 3 \<and> (n4 \<noteq> 24 \<or> n100 = 3));
                   m = (n + 50) div 32;
                   preceding = sum_list (take (nat (m - 1)) DAYS_IN_MONTH)
                                + (if 2 < m \<and> leapyear then 1 else 0)
               in if n < preceding
                  then (let m' = m - 1;
                            preceding' = preceding -
                              (DAYS_IN_MONTH ! nat (m' - 1)
                               + (if m' = 2 \<and> leapyear then 1 else 0))
                        in \<lparr>year = y, month = m', day = n - preceding' + 1\<rparr>)
                  else \<lparr>year = y, month = m, day = n - preceding + 1\<rparr>))"

text \<open>\<^verbatim>\<open>d + timedelta(days=i)\<close>: OverflowError outside the supported range.\<close>

definition date_add_days :: "date \<Rightarrow> int \<Rightarrow> error + date" where
  "date_add_days d i =
     (let n = toordinal d + i
      in if 0 < n \<and> n \<le> MAXORDINAL then Inr (ord2ymd n) else Inl OverflowError)"

text \<open>\<^verbatim>\<open>(b - a).days\<close>\<close>

definition date_diff_days :: "date \<Rightarrow> date \<Rightarrow> int" where
  "date_diff_days b a = toordinal b - toordinal a"

definition digit_char :: "int \<Rightarrow> char" where
  "digit_char n = char_of (48 + nat n)"

text \<open>\<^verbatim>\<open>"%04d-%02d-%02d" % (year, month, day)\<close>\<close>

definition isoformat :: "date \<Rightarrow> string" where
  "isoformat d =
     map digit_char [year d div 1000 mod 10, year d div 100 mod 10,
                     year d div 10 mod 10, year d mod 10]
     @ ''-'' @ map digit_char [month d div 10 mod 10, month d mod 10]
     @ ''-'' @ map digit_char [day d div 10 mod 10, day d mod 10]"

definition digit_val :: "char \<Rightarrow> int option" where
  "digit_val c =
     (let n = of_char c :: nat
      in if 48 \<le> n \<and> n \<le> 57 then Some (int n - 48) else None)"

fun digits_val :: "int \<Rightarrow> string \<Rightarrow> int option" where
  "digits_val acc [] = Some acc"
| "digits_val acc (c # cs) =
     (case digit_val c of None \<Rightarrow> None | Some v \<Rightarrow> digits_val (acc * 10 + v) cs)"

text \<open>
  \<^verbatim>\<open>dt.date.fromisoformat\<close> on the form YYYY-MM-DD, the form the field of
  TripInput documents: ten characters, decimal digits around two hyphens, and a date
  that exists; anything else raises ValueError. (From Python 3.11 on the function also
  reads the basic form YYYYMMDD and week dates; those inputs are outside the model.)
\<close>

definition parse_date :: "string \<Rightarrow> error + date" where
  "parse_date s =
     (if length s \<noteq> 10 then Inl ValueError
      else if s ! 4 \<noteq> CHR ''-'' \<or> s ! 7 \<noteq> CHR ''-'' then Inl ValueError
      else case (digits_val 0 (take 4 s), digits_val 0 (take 2 (drop 5 s)),
                 digits_val 0 (take 2 (drop 8 s))) of
             (Some y, Some m, Some d) \<Rightarrow>
               if 1 \<le> y \<and> y \<le> 9999 \<and> 1 \<le> m \<and> m \<le> 12
                  \<and> 1 \<le> d \<and> d \<le> days_in_month y m
               then Inr \<lparr>year = y, month = m, day = d\<rparr>
               else Inl ValueError
           | _ \<Rightarrow> Inl ValueError)"

definition nights_between :: "string \<Rightarrow> string \<Rightarrow> error + int" where
  "nights_between start end' =
     (case parse_date start of
        Inl e \<Rightarrow> Inl e
      | Inr a \<Rightarrow>
          (case parse_date end' of
             Inl e \<Rightarrow> Inl e
           | Inr b \<Rightarrow> Inr (max 1 (date_diff_days b a))))"

section \<open>Rounding\<close>

definition round_half_even :: "real \<Rightarrow> int" where
  "round_half_even x =
     (let f = \<lfloor>x\<rfloor>; d = x - of_int f
      in if d < 1 / 2 then f
         else if 1 / 2 < d then f + 1
         else if even f then f else f + 1)"

text \<open>\<^verbatim>\<open>round(x, ndigits)\<close> on a float, ties to even.\<close>

definition round_float :: "real \<Rightarrow> nat \<Rightarrow> real" where
  "round_float x ndigits = of_int (round_half_even (x * 10 ^ ndigits)) / 10 ^ ndigits"

text \<open>
  \<^verbatim>\<open>round(n, ndigits)\<close> on an int: the int itself when \<open>ndigits\<close> is not
  negative, else the nearest multiple of the power of ten, ties to the even multiple.
\<close>

definition round_int :: "int \<Rightarrow> int \<Rightarrow> int" where
  "round_int n ndigits =
     (if 0 \<le> ndigits then n
      else (let p = 10 ^ nat (- ndigits); q = n div p; r = n mod p
            in if 2 * r < p then q * p
               else if p < 2 * r then (q + 1) * p
               else if even q then q * p else (q + 1) * p))"

section \<open>IEEE double rounding\<close>

text \<open>
  The nearest double to a real: 53 significant bits, ties to the even significand.
  Overflow and subnormal results are outside this definition.
\<close>

definition round_double :: "real \<Rightarrow> real" where
  "round_double x =
     (if x = 0 then 0
      else (let e = \<lfloor>log 2 \<bar>x\<bar>\<rfloor> - 52
            in of_int (round_half_even (x / 2 powi e)) * 2 powi e))"

text \<open>
  \<^verbatim>\<open>budget_fit_score\<close> with every arithmetic operation rounded to a double, in the
  order Python evaluates them; the literals are the doubles nearest to the decimals.
  The arguments are taken to be doubles. The exact reading above and this one can
  differ in the last bits of the result, which is what decides whether two different
  overruns get different scores.
\<close>

definition budget_fit_score_double :: "real \<Rightarrow> real \<Rightarrow> real" where
  "budget_fit_score_double price budget =
     (if price \<le> budget
      then clamp (round_double (round_double 0.85
                    + round_double (round_double 0.15
                        * round_double (1 - round_double
                            (price / max budget (round_double (1 / 1000000))))))) 0 1
      else (let over = round_double (round_double (price - budget)
                                      / max budget (round_double (1 / 1000000)))
            in clamp (round_double (1 - round_double (round_double 1.4 * over))) 0 1))"

section \<open>Loops that can raise\<close>

text \<open>A \<^verbatim>\<open>for\<close> loop appending one result per element; the first exception ends it.\<close>

fun for_each :: "('a \<Rightarrow> error + 'b) \<Rightarrow> 'a list \<Rightarrow> error + 'b list" where
  "for_each f [] = Inr []"
| "for_each f (x # xs) =
     (case f x of
        Inl e \<Rightarrow> Inl e
      | Inr y \<Rightarrow> (case for_each f xs of Inl e \<Rightarrow> Inl e | Inr ys \<Rightarrow> Inr (y # ys)))"

text \<open>\<^verbatim>\<open>d.get(k, default)\<close>\<close>

definition dict_get :: "('k \<rightharpoonup> 'v) \<Rightarrow> 'k \<Rightarrow> 'v \<Rightarrow> 'v" where
  "dict_get m k dflt = (case m k of Some v \<Rightarrow> v | None \<Rightarrow> dflt)"

section \<open>Itinerary generator\<close>

record ItineraryDay =
  date_str :: string
  morning :: string
  afternoon :: string
  evening :: string
  est_cost :: real

record ItineraryResponse =
  it_destination :: string
  days :: "ItineraryDay list"
  total_est_cost :: real
  it_notes :: "string list"

text \<open>The e with acute accent of three of the labels is the code point 0xE9.\<close>

definition morning_opts :: "string \<rightharpoonup> string" where
  "morning_opts = map_of
     [(''relaxed'', ''Slow breakfast + cedar forest walk''),
      (''packed'', ''Early start: viewpoints + town highlights''),
      (''foodie'', ''Local caf'' @ [CHR 0xE9] @ '' + pastry stop''),
      (''culture'', ''Azrou day trip idea + cedar forest history''),
      (''nightlife'', ''Caf'' @ [CHR 0xE9] @ '' hopping + evening stroll''),
      (''balanced'', ''Town center walk + scenic stop'')]"

definition afternoon_opts :: "string \<rightharpoonup> string" where
  "afternoon_opts = map_of
     [(''relaxed'', ''Lakeside chill time + coffee''),
      (''packed'', ''Outdoor activity (hike / excursion)''),
      (''foodie'', ''Try local tagine + tea time''),
      (''culture'', ''Local crafts + heritage walk''),
      (''nightlife'', ''Rooftop lunch + downtime''),
      (''balanced'', ''Lunch + one planned activity'')]"

definition evening_opts :: "string \<rightharpoonup> string" where
  "evening_opts = map_of
     [(''relaxed'', ''Sunset viewpoint + easy dinner''),
      (''packed'', ''Dinner + night walk loop''),
      (''foodie'', ''Dinner + dessert tasting''),
      (''culture'', ''Traditional dinner + mint tea''),
      (''nightlife'', ''Lounge/caf'' @ [CHR 0xE9] @ '' + late tea''),
      (''balanced'', ''Dinner + optional stroll'')]"

definition base_pp_table :: "string \<rightharpoonup> int" where
  "base_pp_table = map_of
     [(''relaxed'', 30), (''packed'', 50), (''foodie'', 55),
      (''culture'', 45), (''nightlife'', 55), (''balanced'', 40)]"

definition itinerary_notes :: "string list" where
  "itinerary_notes =
     [''MVP itinerary is heuristic (no live attraction data yet).'',
      ''Add maps + opening hours later for a production version.'']"

text \<open>
  The body of the loop for day index \<open>i\<close>. The defaults
  \<^verbatim>\<open>morning_opts["balanced"]\<close> etc. are subscripts, which raise KeyError on a
  missing key. \<open>est\<close> is an int, so \<^verbatim>\<open>round(est, 2)\<close> is the int rounding.
\<close>

definition itinerary_day :: "TripInput \<Rightarrow> date \<Rightarrow> string \<Rightarrow> int \<Rightarrow> int \<Rightarrow> error + ItineraryDay" where
  "itinerary_day trip start sty base_pp i =
     (case date_add_days start i of
        Inl e \<Rightarrow> Inl e
      | Inr d \<Rightarrow>
          (let bump = (i mod 3) * 3;
               est = (base_pp + bump) * travelers trip
           in case morning_opts ''balanced'' of
                None \<Rightarrow> Inl KeyError
              | Some mb \<Rightarrow>
                  (case afternoon_opts ''balanced'' of
                     None \<Rightarrow> Inl KeyError
                   | Some ab \<Rightarrow>
                       (case evening_opts ''balanced'' of
                          None \<Rightarrow> Inl KeyError
                        | Some eb \<Rightarrow>
                            Inr \<lparr>date_str = isoformat d,
                                 morning = dict_get morning_opts sty mb,
                                 afternoon = dict_get afternoon_opts sty ab,
                                 evening = dict_get evening_opts sty eb,
                                 est_cost = of_int (round_int est 2)\<rparr>))))"

definition generate_itinerary :: "TripInput \<Rightarrow> error + ItineraryResponse" where
  "generate_itinerary trip =
     (case parse_date (start_date trip) of
        Inl e \<Rightarrow> Inl e
      | Inr start \<Rightarrow>
          (case parse_date (end_date trip) of
             Inl e \<Rightarrow> Inl e
           | Inr end' \<Rightarrow>
               (let n_days = max 1 (date_diff_days end' start);
                    sty = strip (lower (style trip));
                    base_pp = dict_get base_pp_table sty 40
                in case for_each (itinerary_day trip start sty base_pp)
                          (map int [0..<nat n_days]) of
                     Inl e \<Rightarrow> Inl e
                   | Inr ds \<Rightarrow>
                       Inr \<lparr>it_destination = destination trip,
                            days = ds,
                            total_est_cost = round_float (sum_list (map est_cost ds)) 2,
                            it_notes = itinerary_notes\<rparr>)))"

section \<open>Listing catalog and provider fallback\<close>

definition mk_listing ::
  "string \<Rightarrow> string \<Rightarrow> string \<Rightarrow> string \<Rightarrow> real \<Rightarrow> real \<Rightarrow> int \<Rightarrow> string list \<Rightarrow> string \<Rightarrow> real \<Rightarrow> string
     \<Rightarrow> StayListing" where
  "mk_listing i pf nm ar pr rt rv am u dkm ty =
     \<lparr>listing_id = i, platform = pf, name = nm, area = ar, nightly_price = pr,
      rating = rt, reviews = rv, amenities = am, url = u,
      distance_km_to_center = dkm, room_type = ty\<rparr>"

definition MOCK_LISTINGS :: "StayListing list" where
  "MOCK_LISTINGS =
     [mk_listing ''bkg-ifr-001'' ''booking'' ''Ifrane Mountain Hotel (Mock)'' ''City Center''
        65 8.4 780 [''wifi'', ''heating'', ''parking'']
        ''https://example.com/booking/bkg-ifr-001'' 0.6 ''hotel_room'',
      mk_listing ''bkg-ifr-002'' ''booking'' ''Cozy Chalet Near Cedar Forest (Mock)'' ''Outskirts''
        92 8.9 214 [''wifi'', ''kitchen'', ''heating'', ''parking'']
        ''https://example.com/booking/bkg-ifr-002'' 3.2 ''entire_place'',
      mk_listing ''bnb-ifr-101'' ''airbnb'' ''Private Room w/ Fireplace (Mock)'' ''City Center''
        45 4.78 133 [''wifi'', ''heating'']
        ''https://example.com/airbnb/bnb-ifr-101'' 0.9 ''private_room'',
      mk_listing ''bnb-ifr-102'' ''airbnb'' ''Family Apartment (Mock)'' ''City Center''
        72 4.86 89 [''wifi'', ''kitchen'', ''heating'']
        ''https://example.com/airbnb/bnb-ifr-102'' 1.1 ''entire_place'']"

record BookingSearchRequest =
  bk_city :: string
  bk_checkin :: string
  bk_checkout :: string
  bk_adults :: int

record AirbnbSearchRequest =
  ab_query :: string
  ab_checkin :: string
  ab_checkout :: string
  ab_adults :: int

text \<open>
  The two provider clients. \<open>search_stays\<close> of a client built with its credentials is
  a function of the request; the clients the repository ships are placeholders that
  return the empty list. The catalog code is written for clients that return listings,
  so it takes the two search functions as a parameter.
\<close>

record providers =
  booking_search :: "string \<Rightarrow> string \<Rightarrow> BookingSearchRequest \<Rightarrow> StayListing list"
  airbnb_search :: "string \<Rightarrow> AirbnbSearchRequest \<Rightarrow> StayListing list"

definition BookingDemandClient_search_stays ::
  "string \<Rightarrow> string \<Rightarrow> BookingSearchRequest \<Rightarrow> StayListing list" where
  "BookingDemandClient_search_stays token affiliate_id req = []"

definition AirbnbPartnerClient_search_stays ::
  "string \<Rightarrow> AirbnbSearchRequest \<Rightarrow> StayListing list" where
  "AirbnbPartnerClient_search_stays token req = []"

definition shipped_providers :: providers where
  "shipped_providers =
     \<lparr>booking_search = BookingDemandClient_search_stays,
      airbnb_search = AirbnbPartnerClient_search_stays\<rparr>"

text \<open>
  The process environment is a map from variable names to values; \<^verbatim>\<open>os.getenv\<close>
  is the lookup. A value is truthy when it is set and not the empty string.
\<close>

type_synonym environ = "string \<rightharpoonup> string"

definition truthy :: "string option \<Rightarrow> bool" where
  "truthy v = (case v of None \<Rightarrow> False | Some s \<Rightarrow> s \<noteq> [])"

text \<open>The locals \<^verbatim>\<open>booking_listings\<close> and \<^verbatim>\<open>airbnb_listings\<close> of \<^verbatim>\<open>fetch_listings\<close>.\<close>

definition booking_listings :: "providers \<Rightarrow> environ \<Rightarrow> TripInput \<Rightarrow> StayListing list" where
  "booking_listings pr env trip =
     (let booking_token = env ''BOOKING_DEMAND_TOKEN'';
          booking_affiliate_id = env ''BOOKING_AFFILIATE_ID''
      in if truthy booking_token \<and> truthy booking_affiliate_id
         then booking_search pr (the booking_token) (the booking_affiliate_id)
                \<lparr>bk_city = destination trip, bk_checkin = start_date trip,
                 bk_checkout = end_date trip, bk_adults = travelers trip\<rparr>
         else [])"

definition airbnb_listings :: "providers \<Rightarrow> environ \<Rightarrow> TripInput \<Rightarrow> StayListing list" where
  "airbnb_listings pr env trip =
     (let airbnb_token = env ''AIRBNB_PARTNER_TOKEN''
      in if truthy airbnb_token
         then airbnb_search pr (the airbnb_token)
                \<lparr>ab_query = destination trip, ab_checkin = start_date trip,
                 ab_checkout = end_date trip, ab_adults = travelers trip\<rparr>
         else [])"

definition fetch_listings_with :: "providers \<Rightarrow> environ \<Rightarrow> TripInput \<Rightarrow> StayListing list" where
  "fetch_listings_with pr env trip =
     (let combined = booking_listings pr env trip @ airbnb_listings pr env trip
      in if combined \<noteq> [] then combined else MOCK_LISTINGS)"

definition fetch_listings :: "environ \<Rightarrow> TripInput \<Rightarrow> StayListing list" where
  "fetch_listings env trip = fetch_listings_with shipped_providers env trip"

section \<open>Recommendations\<close>

record StayRecommendation =
  listing :: StayListing
  match_score :: real
  why :: "why_line list"
  est_total_price :: real

record StaysResponse =
  st_destination :: string
  nights :: int
  currency_note :: string
  recommendations :: "StayRecommendation list"

text \<open>
  \<^verbatim>\<open>xs.sort(key=k, reverse=True)\<close> is a stable sort into descending key order.
  On keys that are totally ordered the result of a stable sort is unique; it is
  computed here by the library's stable insertion sort on the negated key.
\<close>

definition sort_reverse :: "('a \<Rightarrow> real) \<Rightarrow> 'a list \<Rightarrow> 'a list" where
  "sort_reverse k xs = sort_key (\<lambda>x. - k x) xs"

definition score_entry :: "TripInput \<Rightarrow> StayListing \<Rightarrow> error + (real \<times> StayListing \<times> parts)" where
  "score_entry trip l =
     (case score_listing l trip of
        Inl e \<Rightarrow> Inl e
      | Inr (score, ps) \<Rightarrow> Inr (score, l, ps))"

definition recommendation :: "TripInput \<Rightarrow> int \<Rightarrow> real \<times> StayListing \<times> parts \<Rightarrow> error + StayRecommendation" where
  "recommendation trip n entry =
     (case entry of (score, l, ps) \<Rightarrow>
        (case explain_listing l trip ps of
           Inl e \<Rightarrow> Inl e
         | Inr w \<Rightarrow>
             Inr \<lparr>listing = l,
                  match_score = round_float score 1,
                  why = w,
                  est_total_price = round_float (nightly_price l * of_int n) 2\<rparr>))"

definition recommend_stays_with :: "providers \<Rightarrow> environ \<Rightarrow> TripInput \<Rightarrow> error + StaysResponse" where
  "recommend_stays_with pr env trip =
     (case nights_between (start_date trip) (end_date trip) of
        Inl e \<Rightarrow> Inl e
      | Inr n \<Rightarrow>
          (let listings = filter (\<lambda>l. dealbreaker_ok (room_type l) (dealbreakers trip))
                            (fetch_listings_with pr env trip)
           in case for_each (score_entry trip) listings of
                Inl e \<Rightarrow> Inl e
              | Inr scored \<Rightarrow>
                  (let scored' = sort_reverse fst scored
                   in case for_each (recommendation trip n) (take 10 scored') of
                        Inl e \<Rightarrow> Inl e
                      | Inr recs \<Rightarrow>
                          Inr \<lparr>st_destination = destination trip,
                               nights = n,
                               currency_note = ''Set keys in .env to use Booking Demand API / Airbnb partner stub; otherwise mock data.'',
                               recommendations = recs\<rparr>)))"

definition recommend_stays :: "environ \<Rightarrow> TripInput \<Rightarrow> error + StaysResponse" where
  "recommend_stays env trip = recommend_stays_with shipped_providers env trip"

section \<open>Example inputs\<close>

text \<open>
  The trip of the end-to-end example, variants of it with dealbreakers, and a provider
  that answers with one listing whose room type is spelled with capitals.
\<close>

definition example_trip :: TripInput where
  "example_trip =
     \<lparr>destination = ''Ifrane, Morocco'', start_date = ''2024-01-10'',
      end_date = ''2024-01-12'', travelers = 2, nightly_budget = 70, style = ''relaxed'',
      must_haves = [], dealbreakers = [], prefer_areas = []\<rparr>"

definition trip_no_private :: TripInput where
  "trip_no_private = example_trip\<lparr>dealbreakers := [''Private_Room'']\<rparr>"

definition trip_no_entire :: TripInput where
  "trip_no_entire = example_trip\<lparr>dealbreakers := [''entire_place'']\<rparr>"

definition shared_caps_listing :: StayListing where
  "shared_caps_listing = (hd MOCK_LISTINGS)\<lparr>room_type := ''Shared_Room''\<rparr>"

definition one_listing_providers :: providers where
  "one_listing_providers =
     \<lparr>booking_search = (\<lambda>token affiliate_id req. [shared_caps_listing]),
      airbnb_search = (\<lambda>token req. [])\<rparr>"

definition booking_env :: environ where
  "booking_env = [''BOOKING_DEMAND_TOKEN'' \<mapsto> ''token'', ''BOOKING_AFFILIATE_ID'' \<mapsto> ''42'']"

definition trip_no_shared :: TripInput where
  "trip_no_shared = example_trip\<lparr>dealbreakers := [''shared_room'']\<rparr>"

text \<open>A provider that answers with eleven listings that differ only in their identifier.\<close>

definition eleven_listings :: "StayListing list" where
  "eleven_listings =
     map (\<lambda>i. (hd MOCK_LISTINGS)\<lparr>listing_id := i\<rparr>)
       [''a'', ''b'', ''c'', ''d'', ''e'', ''f'', ''g'', ''h'', ''i'', ''j'', ''k'']"

definition eleven_providers :: providers where
  "eleven_providers =
     \<lparr>booking_search = (\<lambda>token affiliate_id req. eleven_listings),
      airbnb_search = (\<lambda>token req. [])\<rparr>"

text \<open>A trip with must-have amenities and a score breakdown with the two keys the explanation reads.\<close>

definition trip_with_musts :: TripInput where
  "trip_with_musts = example_trip\<lparr>must_haves := [''WiFi'', ''pool'']\<rparr>"

definition example_parts :: parts where
  "example_parts = [''quality'' \<mapsto> 0.9, ''location'' \<mapsto> 0.5]"

text \<open>Two more trips: an unrecognized style, and an end date before the start date.\<close>

definition trip_adventure :: TripInput where
  "trip_adventure =
     \<lparr>destination = ''Ifrane, Morocco'', start_date = ''2024-02-28'',
      end_date = ''2024-03-01'', travelers = 3, nightly_budget = 70, style = '' Adventure '',
      must_haves = [], dealbreakers = [], prefer_areas = []\<rparr>"

definition trip_foodie_backwards :: TripInput where
  "trip_foodie_backwards =
     \<lparr>destination = ''Ifrane, Morocco'', start_date = ''2024-03-01'',
      end_date = ''2024-02-28'', travelers = 1, nightly_budget = 70, style = ''  FOODIE'',
      must_haves = [], dealbreakers = [], prefer_areas = []\<rparr>"

text \<open>
  Two neighbouring doubles, 56.96682047329927 and the next one below it, as budgets for
  the price 72.
\<close>

definition budget_a :: real where "budget_a = 8017367233001017 / 2 ^ 47"

definition budget_b :: real where "budget_b = 8017367233001016 / 2 ^ 47"

section \<open>Observations used in the statements\<close>

text \<open>
  The listings that pass the dealbreaker filter of \<open>recommend_stays\<close> (its local
  \<^verbatim>\<open>listings\<close>), and the composite score \<open>score_listing\<close> returns for a listing.
\<close>

definition survivors :: "providers \<Rightarrow> environ \<Rightarrow> TripInput \<Rightarrow> StayListing list" where
  "survivors pr env t =
     filter (\<lambda>l. dealbreaker_ok (room_type l) (dealbreakers t)) (fetch_listings_with pr env t)"

definition composite :: "StayListing \<Rightarrow> TripInput \<Rightarrow> real" where
  "composite l trip = (case score_listing l trip of Inl e \<Rightarrow> 0 | Inr (s, ps) \<Rightarrow> s)"

text \<open>
  The six keys of the style tables, and the record the loop body of
  \<open>generate_itinerary\<close> builds for day \<open>i\<close> when nothing raises.
\<close>

definition recognized_styles :: "string set" where
  "recognized_styles =
     {''relaxed'', ''packed'', ''foodie'', ''culture'', ''nightlife'', ''balanced''}"

definition day_of :: "TripInput \<Rightarrow> date \<Rightarrow> string \<Rightarrow> int \<Rightarrow> int \<Rightarrow> ItineraryDay" where
  "day_of t start sty base_pp i =
     \<lparr>date_str = isoformat (ord2ymd (toordinal start + i)),
      morning = dict_get morning_opts sty ''Town center walk + scenic stop'',
      afternoon = dict_get afternoon_opts sty ''Lunch + one planned activity'',
      evening = dict_get evening_opts sty ''Dinner + optional stroll'',
      est_cost = of_int ((base_pp + 3 * (i mod 3)) * travelers t)\<rparr>"

section \<open>Basic facts\<close>

lemma clamp_bounds: "lo \<le> hi \<Longrightarrow> lo \<le> clamp x lo hi \<and> clamp x lo hi \<le> hi"
  by (simp add: clamp_def)

subsection \<open>Loops\<close>

lemma for_each_Inr: "for_each f xs = Inr ys \<longleftrightarrow> list_all2 (\<lambda>x y. f x = Inr y) xs ys"
proof (induction xs arbitrary: ys)
  case Nil
  show ?case by auto
next
  case (Cons x xs)
  show ?case
  proof (cases "f x")
    case (Inl e)
    then show ?thesis by (auto simp: list_all2_Cons1)
  next
    case fx: (Inr y)
    show ?thesis
    proof (cases "for_each f xs")
      case (Inl e)
      with fx Cons.IH show ?thesis by (auto simp: list_all2_Cons1)
    next
      case (Inr zs)
      with fx Cons.IH show ?thesis by (auto simp: list_all2_Cons1)
    qed
  qed
qed

lemma for_each_total:
  "(\<And>x. x \<in> set xs \<Longrightarrow> \<exists>y. f x = Inr y) \<Longrightarrow> \<exists>ys. for_each f xs = Inr ys"
proof (induction xs)
  case Nil
  show ?case by simp
next
  case (Cons x xs)
  obtain y where y: "f x = Inr y" using Cons.prems[of x] by auto
  obtain ys where ys: "for_each f xs = Inr ys" using Cons by auto
  show ?case using y ys by simp
qed

lemma list_all2_map_eq:
  "list_all2 (\<lambda>x y. g x = h y) xs ys \<Longrightarrow> map g xs = map h ys"
  by (induction xs ys rule: list_all2_induct) auto

subsection \<open>Budget fit\<close>

lemma bfs_under:
  assumes "0 < b" "p \<le> b"
  shows "0.85 \<le> budget_fit_score p b \<and> budget_fit_score p b \<le> 1"
proof -
  define r where "r = p / max b (1 / 1000000)"
  have m: "0 < max b (1 / 1000000)" "p \<le> max b (1 / 1000000)" using assms by simp_all
  have r: "r \<le> 1" unfolding r_def using m by (simp only: pos_divide_le_eq mult_1)
  have e: "budget_fit_score p b = max 0 (min 1 (0.85 + 0.15 * (1 - r)))"
    using assms(2) by (simp only: budget_fit_score_def clamp_def r_def if_True)
  show ?thesis unfolding e using r by (auto simp: max_def min_def)
qed

lemma bfs_over:
  assumes "1 / 1000000 \<le> b" "b < p"
  shows "budget_fit_score p b = clamp (1 - 1.4 * ((p - b) / b)) 0 1"
proof -
  have m: "max b (1 / 1000000) = b" using assms(1) by (simp only: max_def split: if_splits) auto
  have n: "\<not> p \<le> b" using assms(2) by simp
  show ?thesis by (simp only: budget_fit_score_def n if_False Let_def m)
qed

lemma bfs_zero:
  assumes "1 / 1000000 \<le> b" "b < p" "1 / 1.4 \<le> (p - b) / b"
  shows "budget_fit_score p b = 0"
proof -
  define ov where "ov = (p - b) / b"
  have "1 / 1.4 \<le> ov" using assms(3) by (simp only: ov_def)
  then have "1 \<le> 1.4 * ov" by simp
  then show ?thesis unfolding bfs_over[OF assms(1,2)] clamp_def ov_def[symmetric]
    by (auto simp: max_def min_def)
qed

lemma bfs_mono:
  assumes "0 < b" "b < p" "(p - b) / b \<le> (p' - b) / b"
  shows "budget_fit_score p' b \<le> budget_fit_score p b"
proof -
  define m where "m = max b (1 / 1000000)"
  have m: "0 < m" by (simp add: m_def)
  have pp: "p \<le> p'" using assms(1,3) by (simp add: divide_le_cancel)
  then have n: "\<not> p \<le> b" "\<not> p' \<le> b" using assms(2) by simp_all
  define u where "u = (p - b) / m"
  define v where "v = (p' - b) / m"
  have "u \<le> v" unfolding u_def v_def using pp m by (simp add: divide_right_mono)
  then have "1 - 1.4 * v \<le> 1 - 1.4 * u" by simp
  then have "1 - 1.4 * ((p' - b) / m) \<le> 1 - 1.4 * ((p - b) / m)"
    by (simp only: u_def v_def)
  then have "clamp (1 - 1.4 * ((p' - b) / m)) 0 1 \<le> clamp (1 - 1.4 * ((p - b) / m)) 0 1"
    unfolding clamp_def by (auto simp: max_def min_def)
  then show ?thesis by (simp only: budget_fit_score_def n if_False Let_def m_def)
qed

subsection \<open>Evaluating the double rounding\<close>

lemma round_double_eval:
  assumes "2 ^ 52 \<le> \<bar>x\<bar> * 2 ^ k" "\<bar>x\<bar> * 2 ^ k < 2 ^ 53"
  shows "round_double x = of_int (round_half_even (x * 2 ^ k)) / 2 ^ k"
proof -
  have x0: "x \<noteq> 0" using assms(1) by auto
  then have pos: "0 < \<bar>x\<bar>" by simp
  have p: "2 powr real_of_int (52 - int k) = (2::real) ^ 52 / 2 ^ k"
    by (simp add: powr_diff powr_realpow)
  have q: "2 powr real_of_int (52 - int k + 1) = (2::real) ^ 53 / 2 ^ k"
    by (simp add: powr_diff powr_realpow)
  have lo: "(2::real) ^ 52 / 2 ^ k \<le> \<bar>x\<bar>" using assms(1) by (simp add: pos_divide_le_eq)
  have hi: "\<bar>x\<bar> < (2::real) ^ 53 / 2 ^ k" using assms(2) by (simp add: pos_less_divide_eq)
  have "2 powr real_of_int (52 - int k) \<le> \<bar>x\<bar> \<and> \<bar>x\<bar> < 2 powr real_of_int (52 - int k + 1)"
    unfolding p q using lo hi by blast
  then have "\<lfloor>log 2 \<bar>x\<bar>\<rfloor> = 52 - int k"
    using floor_log_eq_powr_iff[OF pos, of 2 "52 - int k"] by simp
  then have e: "\<lfloor>log 2 \<bar>x\<bar>\<rfloor> - 52 = - int k" by simp
  have pw: "(2::real) powi (- int k) = 1 / 2 ^ k"
    by (simp add: power_int_def field_simps)
  show ?thesis using x0 by (simp add: round_double_def Let_def e pw)
qed

lemma round_double_consts:
  "round_double (14 / 10) = 6305039478318694 / 2 ^ 52"
  "round_double (1 / 1000000) = 4722366482869645 / 2 ^ 72"
proof -
  show "round_double (14 / 10) = 6305039478318694 / 2 ^ 52"
    by (subst round_double_eval[where k = 52]) (simp_all add: round_half_even_def)
  show "round_double (1 / 1000000) = 4722366482869645 / 2 ^ 72"
    by (subst round_double_eval[where k = 72]) (simp_all add: round_half_even_def)
qed

lemma double_steps_a:
  "round_double (72 - budget_a) = 8462927714330396 / 2 ^ 49"
  "round_double ((8462927714330396 / 2 ^ 49) / budget_a) = 4753884535042725 / 2 ^ 54"
  "round_double ((6305039478318694 / 2 ^ 52) * (4753884535042725 / 2 ^ 54))
     = 6655438349059815 / 2 ^ 54"
  "round_double (1 - 6655438349059815 / 2 ^ 54) = 5679480080211084 / 2 ^ 53"
proof -
  show "round_double (72 - budget_a) = 8462927714330396 / 2 ^ 49"
    by (subst round_double_eval[where k = 49]) (simp_all add: round_half_even_def budget_a_def)
  show "round_double ((8462927714330396 / 2 ^ 49) / budget_a) = 4753884535042725 / 2 ^ 54"
    by (subst round_double_eval[where k = 54]) (simp_all add: round_half_even_def budget_a_def)
  show "round_double ((6305039478318694 / 2 ^ 52) * (4753884535042725 / 2 ^ 54))
     = 6655438349059815 / 2 ^ 54"
    by (subst round_double_eval[where k = 54]) (simp_all add: round_half_even_def)
  show "round_double (1 - 6655438349059815 / 2 ^ 54) = 5679480080211084 / 2 ^ 53"
    by (subst round_double_eval[where k = 53]) (simp_all add: round_half_even_def)
qed

lemma double_steps_b:
  "round_double (72 - budget_b) = 8462927714330400 / 2 ^ 49"
  "round_double ((8462927714330400 / 2 ^ 49) / budget_b) = 4753884535042727 / 2 ^ 54"
  "round_double ((6305039478318694 / 2 ^ 52) * (4753884535042727 / 2 ^ 54))
     = 6655438349059817 / 2 ^ 54"
  "round_double (1 - 6655438349059817 / 2 ^ 54) = 5679480080211084 / 2 ^ 53"
proof -
  show "round_double (72 - budget_b) = 8462927714330400 / 2 ^ 49"
    by (subst round_double_eval[where k = 49]) (simp_all add: round_half_even_def budget_b_def)
  show "round_double ((8462927714330400 / 2 ^ 49) / budget_b) = 4753884535042727 / 2 ^ 54"
    by (subst round_double_eval[where k = 54]) (simp_all add: round_half_even_def budget_b_def)
  show "round_double ((6305039478318694 / 2 ^ 52) * (4753884535042727 / 2 ^ 54))
     = 6655438349059817 / 2 ^ 54"
    by (subst round_double_eval[where k = 54]) (simp_all add: round_half_even_def)
  show "round_double (1 - 6655438349059817 / 2 ^ 54) = 5679480080211084 / 2 ^ 53"
    by (subst round_double_eval[where k = 53]) (simp_all add: round_half_even_def)
qed

lemma budgets_are_doubles:
  "round_double budget_a = budget_a" "round_double budget_b = budget_b"
  "round_double 72 = 72"
proof -
  show "round_double budget_a = budget_a"
    by (subst round_double_eval[where k = 47]) (simp_all add: round_half_even_def budget_a_def)
  show "round_double budget_b = budget_b"
    by (subst round_double_eval[where k = 47]) (simp_all add: round_half_even_def budget_b_def)
  show "round_double 72 = 72"
    by (subst round_double_eval[where k = 46]) (simp_all add: round_half_even_def)
qed

lemma budget_fit_score_double_a:
  "budget_fit_score_double 72 budget_a = 5679480080211084 / 2 ^ 53"
proof -
  have m: "max budget_a (4722366482869645 / 2 ^ 72) = budget_a" by (simp add: budget_a_def)
  have n: "\<not> 72 \<le> budget_a" by (simp add: budget_a_def)
  have c: "clamp (5679480080211084 / 2 ^ 53) 0 1 = 5679480080211084 / 2 ^ 53"
    by (simp add: clamp_def)
  show ?thesis
    unfolding budget_fit_score_double_def Let_def
    by (simp only: n if_False round_double_consts m double_steps_a c)
qed

lemma budget_fit_score_double_b:
  "budget_fit_score_double 72 budget_b = 5679480080211084 / 2 ^ 53"
proof -
  have m: "max budget_b (4722366482869645 / 2 ^ 72) = budget_b" by (simp add: budget_b_def)
  have n: "\<not> 72 \<le> budget_b" by (simp add: budget_b_def)
  have c: "clamp (5679480080211084 / 2 ^ 53) 0 1 = 5679480080211084 / 2 ^ 53"
    by (simp add: clamp_def)
  show ?thesis
    unfolding budget_fit_score_double_def Let_def
    by (simp only: n if_False round_double_consts m double_steps_b c)
qed

subsection \<open>Scoring and recommendations\<close>

lemma budget_fit_score_01: "0 \<le> budget_fit_score p b \<and> budget_fit_score p b \<le> 1"
  by (simp add: budget_fit_score_def Let_def clamp_bounds)

lemma quality_score_01: "0 \<le> quality_score pf r n \<and> quality_score pf r n \<le> 1"
  by (simp add: quality_score_def Let_def clamp_bounds)

lemma amenities_score_01: "0 \<le> amenities_score am ms \<and> amenities_score am ms \<le> 1"
  by (simp add: amenities_score_def Let_def clamp_bounds)

lemma location_score_Inr:
  assumes "0 \<le> d"
  shows "location_score d = Inr (clamp (1 / (1 + 0.35 * d)) 0 1)"
proof -
  have "0 < 1 + 0.35 * d" using assms by simp
  then have "1 + 0.35 * d \<noteq> 0" by simp
  then show ?thesis by (simp only: location_score_def if_False)
qed

lemma area_bonus_eq:
  "area_bonus a prefs = (if \<exists>x\<in>set prefs. lower a = lower x then 0.12 else 0)"
  by (auto simp: area_bonus_def Let_def)

lemma score_listing_Inr:
  assumes "0 \<le> distance_km_to_center l"
  shows "score_listing l t =
     Inr (clamp (0.40 * budget_fit_score (nightly_price l) (nightly_budget t)
               + 0.25 * quality_score (platform l) (rating l) (reviews l)
               + 0.20 * clamp (1 / (1 + 0.35 * distance_km_to_center l)) 0 1
               + 0.15 * amenities_score (amenities l) (must_haves t)
               + area_bonus (area l) (prefer_areas t)) 0 1 * 100,
          [''budget'' \<mapsto> budget_fit_score (nightly_price l) (nightly_budget t),
           ''quality'' \<mapsto> quality_score (platform l) (rating l) (reviews l),
           ''location'' \<mapsto> clamp (1 / (1 + 0.35 * distance_km_to_center l)) 0 1,
           ''amenities'' \<mapsto> amenities_score (amenities l) (must_haves t)])"
  by (simp only: score_listing_def Let_def location_score_Inr[OF assms] sum.case)

lemma explain_listing_Inr:
  assumes "ps ''quality'' = Some q" "ps ''location'' = Some loc"
  shows "\<exists>w. explain_listing l t ps = Inr w"
  using assms by (simp add: explain_listing_def Let_def)

lemma score_entry_Inr:
  assumes "score_entry t l = Inr e"
  shows "fst (snd e) = l" "fst e = composite l t" "score_listing l t = Inr (fst e, snd (snd e))"
  using assms by (auto simp: score_entry_def composite_def split: sum.splits prod.splits)

lemma score_entry_total:
  assumes "0 \<le> distance_km_to_center l"
  shows "\<exists>s ps q loc. score_entry t l = Inr (s, l, ps) \<and> ps ''quality'' = Some q \<and> ps ''location'' = Some loc"
  unfolding score_entry_def score_listing_Inr[OF assms] by simp

lemma recommendation_Inr:
  assumes "recommendation t n e = Inr rc"
  shows "listing rc = fst (snd e)" "match_score rc = round_float (fst e) 1"
    "explain_listing (fst (snd e)) t (snd (snd e)) = Inr (why rc)"
    "est_total_price rc = round_float (nightly_price (fst (snd e)) * of_int n) 2"
  using assms by (auto simp: recommendation_def split: sum.splits prod.splits)

lemma recommendation_total:
  assumes "ps ''quality'' = Some q" "ps ''location'' = Some loc"
  shows "\<exists>rc. recommendation t n (s, l, ps) = Inr rc"
  using explain_listing_Inr[OF assms, of l t] by (auto simp: recommendation_def)

lemma list_all2_in_set2:
  "list_all2 P xs ys \<Longrightarrow> y \<in> set ys \<Longrightarrow> \<exists>x\<in>set xs. P x y"
  by (induction xs ys rule: list_all2_induct) auto

lemma recommend_stays_total:
  assumes pa: "parse_date (start_date t) = Inr a" and pb: "parse_date (end_date t) = Inr b"
    and d: "\<And>l. l \<in> set (survivors pr env t) \<Longrightarrow> 0 \<le> distance_km_to_center l"
  shows "\<exists>r. recommend_stays_with pr env t = Inr r"
proof -
  have n: "nights_between (start_date t) (end_date t) = Inr (max 1 (date_diff_days b a))"
    by (simp add: nights_between_def pa pb)
  have "\<exists>scored. for_each (score_entry t) (survivors pr env t) = Inr scored"
  proof (rule for_each_total)
    fix l assume "l \<in> set (survivors pr env t)"
    from score_entry_total[OF d[OF this], of t] show "\<exists>y. score_entry t l = Inr y" by blast
  qed
  then obtain scored where sc: "for_each (score_entry t) (survivors pr env t) = Inr scored" ..
  then have la: "list_all2 (\<lambda>l e. score_entry t l = Inr e) (survivors pr env t) scored"
    by (simp add: for_each_Inr)
  have "\<exists>recs. for_each (recommendation t (max 1 (date_diff_days b a)))
                  (take 10 (sort_reverse fst scored)) = Inr recs"
  proof (rule for_each_total)
    fix e assume "e \<in> set (take 10 (sort_reverse fst scored))"
    then have "e \<in> set scored" by (auto simp: sort_reverse_def dest: in_set_takeD)
    then obtain l where l: "l \<in> set (survivors pr env t)" "score_entry t l = Inr e"
      using list_all2_in_set2[OF la] by blast
    obtain s ps q loc where
      "score_entry t l = Inr (s, l, ps)" "ps ''quality'' = Some q" "ps ''location'' = Some loc"
      using score_entry_total[OF d[OF l(1)], of t] by blast
    with l(2) recommendation_total[of ps q loc t _ s l]
    show "\<exists>y. recommendation t (max 1 (date_diff_days b a)) e = Inr y" by auto
  qed
  then obtain recs where rc: "for_each (recommendation t (max 1 (date_diff_days b a)))
                  (take 10 (sort_reverse fst scored)) = Inr recs" ..
  show ?thesis
    using n sc rc by (simp add: recommend_stays_with_def survivors_def[symmetric] Let_def)
qed

lemma recommend_stays_Inr:
  assumes "recommend_stays_with pr env t = Inr r"
  shows "\<exists>scored.
           list_all2 (\<lambda>l e. score_entry t l = Inr e) (survivors pr env t) scored \<and>
           list_all2 (\<lambda>e rc. recommendation t (nights r) e = Inr rc)
             (take 10 (sort_reverse fst scored)) (recommendations r) \<and>
           nights_between (start_date t) (end_date t) = Inr (nights r)"
  using assms
  by (auto simp: recommend_stays_with_def survivors_def Let_def for_each_Inr split: sum.splits)

lemma recommended_listings:
  assumes "recommend_stays_with pr env t = Inr r"
  shows "\<exists>scored :: (real \<times> StayListing \<times> parts) list.
           map (fst \<circ> snd) scored = survivors pr env t \<and>
           map fst scored = map (\<lambda>l. composite l t) (survivors pr env t) \<and>
           map listing (recommendations r) = map (fst \<circ> snd) (take 10 (sort_reverse fst scored)) \<and>
           map match_score (recommendations r) =
             map (\<lambda>e. round_float (fst e) 1) (take 10 (sort_reverse fst scored))"
proof -
  obtain scored where
    a: "list_all2 (\<lambda>l e. score_entry t l = Inr e) (survivors pr env t) scored" and
    b: "list_all2 (\<lambda>e rc. recommendation t (nights r) e = Inr rc)
             (take 10 (sort_reverse fst scored)) (recommendations r)"
    using recommend_stays_Inr[OF assms] by blast
  have a1: "list_all2 (\<lambda>l e. l = (fst \<circ> snd) e) (survivors pr env t) scored"
    using a by (rule list_all2_mono) (simp add: score_entry_Inr(1))
  have a2: "list_all2 (\<lambda>l e. composite l t = fst e) (survivors pr env t) scored"
    using a by (rule list_all2_mono) (simp add: score_entry_Inr(2))
  have b1: "list_all2 (\<lambda>e rc. (fst \<circ> snd) e = listing rc)
              (take 10 (sort_reverse fst scored)) (recommendations r)"
    using b by (rule list_all2_mono) (simp add: recommendation_Inr(1))
  have b2: "list_all2 (\<lambda>e rc. round_float (fst e) 1 = match_score rc)
              (take 10 (sort_reverse fst scored)) (recommendations r)"
    using b by (rule list_all2_mono) (simp add: recommendation_Inr(2))
  have c1: "map (\<lambda>l. l) (survivors pr env t) = map (fst \<circ> snd) scored"
    using a1 by (rule list_all2_map_eq)
  have c2: "map (\<lambda>l. composite l t) (survivors pr env t) = map fst scored"
    using a2 by (rule list_all2_map_eq)
  note c3 = list_all2_map_eq[OF b1] and c4 = list_all2_map_eq[OF b2]
  show ?thesis
    by (rule exI[of _ scored]) (simp add: c1[symmetric] c2[symmetric] c3[symmetric] c4[symmetric])
qed

subsection \<open>Rounding, sorting and the ranking\<close>

lemma round_half_even_bounds: "\<lfloor>x\<rfloor> \<le> round_half_even x \<and> round_half_even x \<le> \<lfloor>x\<rfloor> + 1"
  by (simp add: round_half_even_def Let_def)

lemma round_half_even_mono:
  assumes "x \<le> y"
  shows "round_half_even x \<le> round_half_even y"
proof (cases "\<lfloor>x\<rfloor> = \<lfloor>y\<rfloor>")
  case True
  have "x - of_int \<lfloor>x\<rfloor> \<le> y - of_int \<lfloor>y\<rfloor>" using assms True by simp
  then show ?thesis using True by (auto simp: round_half_even_def Let_def)
next
  case False
  have "\<lfloor>x\<rfloor> \<le> \<lfloor>y\<rfloor>" using assms by (rule floor_mono)
  with False have "\<lfloor>x\<rfloor> + 1 \<le> \<lfloor>y\<rfloor>" by simp
  then show ?thesis
    using round_half_even_bounds[of x] round_half_even_bounds[of y] by linarith
qed

lemma round_float_mono:
  assumes "x \<le> y"
  shows "round_float x n \<le> round_float y n"
proof -
  have "x * 10 ^ n \<le> y * 10 ^ n" using assms by (simp add: mult_right_mono)
  then have "round_half_even (x * 10 ^ n) \<le> round_half_even (y * 10 ^ n)"
    by (rule round_half_even_mono)
  then show ?thesis by (simp add: round_float_def divide_right_mono)
qed

lemma sort_reverse_sorted: "sorted_wrt (\<lambda>x y. k y \<le> k x) (sort_reverse k xs)"
proof -
  have "sorted (map (\<lambda>x. - k x) (sort_key (\<lambda>x. - k x) xs))" by (rule sorted_sort_key)
  then show ?thesis by (simp add: sort_reverse_def sorted_map)
qed

lemma sort_reverse_stable:
  "filter (\<lambda>x. k x = s) (sort_reverse k xs) = filter (\<lambda>x. k x = s) xs"
  using sort_key_stable[of "\<lambda>x. - k x" "- s" xs] by (simp add: sort_reverse_def)

lemma sort_reverse_set: "set (sort_reverse k xs) = set xs" "length (sort_reverse k xs) = length xs"
  by (simp_all add: sort_reverse_def)

lemma recommended_subset:
  assumes "recommend_stays_with pr env t = Inr r"
  shows "set (map listing (recommendations r)) \<subseteq> set (survivors pr env t)"
proof -
  obtain scored :: "(real \<times> StayListing \<times> parts) list" where
    a: "map (fst \<circ> snd) scored = survivors pr env t" and
    c: "map listing (recommendations r) = map (fst \<circ> snd) (take 10 (sort_reverse fst scored))"
    using recommended_listings[OF assms] by blast
  have "set (take 10 (sort_reverse fst scored)) \<subseteq> set scored"
    using set_take_subset[of 10 "sort_reverse fst scored"] by (simp add: sort_reverse_set)
  then have "set (map (fst \<circ> snd) (take 10 (sort_reverse fst scored))) \<subseteq> set (map (fst \<circ> snd) scored)"
    unfolding set_map by (rule image_mono)
  then show ?thesis unfolding c a .
qed

lemma recommended_all:
  assumes "recommend_stays_with pr env t = Inr r" "length (survivors pr env t) \<le> 10"
  shows "set (map listing (recommendations r)) = set (survivors pr env t)"
proof -
  obtain scored :: "(real \<times> StayListing \<times> parts) list" where
    a: "map (fst \<circ> snd) scored = survivors pr env t" and
    c: "map listing (recommendations r) = map (fst \<circ> snd) (take 10 (sort_reverse fst scored))"
    using recommended_listings[OF assms(1)] by blast
  have "length scored \<le> 10" using assms(2) a[symmetric] by simp
  then have "take 10 (sort_reverse fst scored) = sort_reverse fst scored"
    by (simp add: sort_reverse_set)
  then have "set (map (fst \<circ> snd) (take 10 (sort_reverse fst scored))) = set (map (fst \<circ> snd) scored)"
    by (simp add: sort_reverse_set)
  then show ?thesis unfolding c a .
qed

lemma recommend_stays_ranking:
  assumes "recommend_stays_with pr env t = Inr r"
  shows "length (recommendations r) = min 10 (length (survivors pr env t))"
    and "sorted_wrt (\<lambda>x y. y \<le> x) (map match_score (recommendations r))"
    and "sorted_wrt (\<lambda>x y. y \<le> x) (map (\<lambda>x. composite (listing x) t) (recommendations r))"
    and "map match_score (recommendations r)
           = map (\<lambda>x. round_float (composite (listing x) t) 1) (recommendations r)"
    and "prefix (filter (\<lambda>l. composite l t = s) (map listing (recommendations r)))
                (filter (\<lambda>l. composite l t = s) (survivors pr env t))"
proof -
  obtain scored :: "(real \<times> StayListing \<times> parts) list" where
    a: "map (fst \<circ> snd) scored = survivors pr env t" and
    b: "map fst scored = map (\<lambda>l. composite l t) (survivors pr env t)" and
    c: "map listing (recommendations r) = map (fst \<circ> snd) (take 10 (sort_reverse fst scored))" and
    d: "map match_score (recommendations r) =
             map (\<lambda>e. round_float (fst e) 1) (take 10 (sort_reverse fst scored))"
    using recommended_listings[OF assms] by blast
  let ?top = "take 10 (sort_reverse fst scored)"
  have e: "\<And>e. e \<in> set scored \<Longrightarrow> fst e = composite (fst (snd e)) t"
  proof -
    fix e assume "e \<in> set scored"
    then obtain i where i: "i < length scored" "e = scored ! i" by (auto simp: in_set_conv_nth)
    have "fst e = map fst scored ! i" using i by simp
    also have "\<dots> = composite (survivors pr env t ! i) t"
      unfolding b using i a[symmetric] by simp
    also have "survivors pr env t ! i = fst (snd e)" using i a[symmetric] by simp
    finally show "fst e = composite (fst (snd e)) t" .
  qed
  have top: "set ?top \<subseteq> set scored"
    using set_take_subset[of 10 "sort_reverse fst scored"] by (simp add: sort_reverse_set)
  have "length (recommendations r) = length (map listing (recommendations r))" by simp
  also have "\<dots> = min 10 (length scored)" unfolding c by (simp add: sort_reverse_set min.commute)
  also have "length scored = length (survivors pr env t)" using a[symmetric] by simp
  finally show "length (recommendations r) = min 10 (length (survivors pr env t))" .
  have st: "sorted_wrt (\<lambda>x y. fst y \<le> fst x) ?top"
    using sort_reverse_sorted[of fst scored] by (rule sorted_wrt_take)
  have "sorted_wrt (\<lambda>x y. round_float (fst y) 1 \<le> round_float (fst x) 1) ?top"
    using st by (rule sorted_wrt_mono_rel[rotated]) (simp add: round_float_mono)
  then show "sorted_wrt (\<lambda>x y. y \<le> x) (map match_score (recommendations r))"
    unfolding d by (simp add: sorted_wrt_map)
  have cm: "map (\<lambda>x. composite (listing x) t) (recommendations r) = map fst ?top"
  proof -
    have "map (\<lambda>x. composite (listing x) t) (recommendations r)
            = map (\<lambda>l. composite l t) (map listing (recommendations r))" by (simp add: comp_def)
    also have "\<dots> = map (\<lambda>e. composite (fst (snd e)) t) ?top" unfolding c by (simp add: comp_def)
    also have "\<dots> = map fst ?top"
    proof (rule map_cong[OF refl])
      fix x assume "x \<in> set ?top"
      then have "x \<in> set scored" using top by blast
      then show "composite (fst (snd x)) t = fst x" using e by simp
    qed
    finally show ?thesis .
  qed
  show "sorted_wrt (\<lambda>x y. y \<le> x) (map (\<lambda>x. composite (listing x) t) (recommendations r))"
    unfolding cm using st by (simp add: sorted_wrt_map)
  have "map (\<lambda>x. round_float (composite (listing x) t) 1) (recommendations r)
          = map (\<lambda>v. round_float v 1) (map (\<lambda>x. composite (listing x) t) (recommendations r))"
    by (simp add: comp_def)
  also have "\<dots> = map (\<lambda>e. round_float (fst e) 1) ?top" unfolding cm by (simp add: comp_def)
  finally show "map match_score (recommendations r)
           = map (\<lambda>x. round_float (composite (listing x) t) 1) (recommendations r)"
    unfolding d by simp
  have f1: "filter (\<lambda>l. composite l t = s) (map (fst \<circ> snd) xs)
              = map (fst \<circ> snd) (filter (\<lambda>e. fst e = s) xs)" if "set xs \<subseteq> set scored" for xs
  proof -
    have "filter (\<lambda>l. composite l t = s) (map (fst \<circ> snd) xs)
            = map (fst \<circ> snd) (filter (\<lambda>e. composite (fst (snd e)) t = s) xs)"
      by (simp add: filter_map comp_def)
    also have "filter (\<lambda>e. composite (fst (snd e)) t = s) xs = filter (\<lambda>e. fst e = s) xs"
    proof (rule filter_cong[OF refl])
      fix x assume "x \<in> set xs"
      then have "x \<in> set scored" using that by blast
      then show "(composite (fst (snd x)) t = s) = (fst x = s)" using e by simp
    qed
    finally show ?thesis .
  qed
  have "prefix (filter (\<lambda>e. fst e = s) ?top) (filter (\<lambda>e. fst e = s) (sort_reverse fst scored))"
    by (rule filter_mono_prefix) (rule take_is_prefix)
  then have "prefix (map (fst \<circ> snd) (filter (\<lambda>e. fst e = s) ?top))
                    (map (fst \<circ> snd) (filter (\<lambda>e. fst e = s) scored))"
    unfolding sort_reverse_stable by (rule map_mono_prefix)
  then show "prefix (filter (\<lambda>l. composite l t = s) (map listing (recommendations r)))
                (filter (\<lambda>l. composite l t = s) (survivors pr env t))"
    unfolding c f1[OF top] a[symmetric] f1[OF subset_refl] .
qed

subsection \<open>The example inputs\<close>

lemma parse_example_start:
  "parse_date ''2024-01-10'' = Inr \<lparr>year = 2024, month = 1, day = 10\<rparr>"
  by code_simp

lemma parse_example_end:
  "parse_date ''2024-01-12'' = Inr \<lparr>year = 2024, month = 1, day = 12\<rparr>"
  by code_simp

lemma fetch_listings_no_env: "fetch_listings_with shipped_providers Map.empty t = MOCK_LISTINGS"
  by (simp add: fetch_listings_with_def booking_listings_def airbnb_listings_def truthy_def)

lemma mock_distances: "l \<in> set MOCK_LISTINGS \<Longrightarrow> 0 \<le> distance_km_to_center l"
  by (auto simp: MOCK_LISTINGS_def mk_listing_def)

lemma survivors_subset: "set (survivors pr env t) \<subseteq> set (fetch_listings_with pr env t)"
  by (auto simp: survivors_def)

lemma recommend_mock_total:
  assumes "start_date t = ''2024-01-10''" "end_date t = ''2024-01-12''"
  shows "\<exists>r. recommend_stays_with shipped_providers Map.empty t = Inr r"
proof (rule recommend_stays_total)
  show "parse_date (start_date t) = Inr \<lparr>year = 2024, month = 1, day = 10\<rparr>"
    by (simp only: assms parse_example_start)
  show "parse_date (end_date t) = Inr \<lparr>year = 2024, month = 1, day = 12\<rparr>"
    by (simp only: assms parse_example_end)
  fix l assume "l \<in> set (survivors shipped_providers Map.empty t)"
  then have "l \<in> set MOCK_LISTINGS"
    using survivors_subset[of shipped_providers Map.empty t] by (auto simp: fetch_listings_no_env)
  then show "0 \<le> distance_km_to_center l" by (rule mock_distances)
qed

lemma fetch_one_listing:
  "fetch_listings_with one_listing_providers booking_env t = [shared_caps_listing]"
  by (simp add: fetch_listings_with_def booking_listings_def airbnb_listings_def truthy_def
      one_listing_providers_def booking_env_def)

subsection \<open>Ranking, in one statement\<close>

lemma prefix_take_length: "prefix xs ys \<Longrightarrow> xs = take (length xs) ys"
  by (auto simp: prefix_def)

lemma recommend_stays_ranking_all:
  assumes "recommend_stays_with pr env t = Inr r"
  shows "length (recommendations r) = min 10 (length (survivors pr env t)) \<and>
     sorted_wrt (\<lambda>x y. y \<le> x) (map match_score (recommendations r)) \<and>
     sorted_wrt (\<lambda>x y. y \<le> x) (map (\<lambda>x. composite (listing x) t) (recommendations r)) \<and>
     map match_score (recommendations r)
       = map (\<lambda>x. round_float (composite (listing x) t) 1) (recommendations r) \<and>
     (\<forall>s. prefix (filter (\<lambda>l. composite l t = s) (map listing (recommendations r)))
                 (filter (\<lambda>l. composite l t = s) (survivors pr env t)))"
  using recommend_stays_ranking[OF assms] by blast

lemma fetch_eleven: "fetch_listings_with eleven_providers booking_env t = eleven_listings"
  by (simp add: fetch_listings_with_def booking_listings_def airbnb_listings_def truthy_def
      eleven_providers_def booking_env_def eleven_listings_def)

lemma survivors_eleven: "survivors eleven_providers booking_env example_trip = eleven_listings"
proof -
  have "dealbreaker_ok rt []" for rt by (simp add: dealbreaker_ok_def)
  then show ?thesis by (simp add: survivors_def fetch_eleven example_trip_def)
qed

lemma composite_eleven:
  "l \<in> set eleven_listings \<Longrightarrow> composite l t = composite (hd MOCK_LISTINGS) t"
proof -
  have "composite (l0\<lparr>listing_id := i\<rparr>) t = composite l0 t" for l0 i
    by (cases "location_score (distance_km_to_center l0)")
       (simp_all add: composite_def score_listing_def Let_def)
  then show "l \<in> set eleven_listings \<Longrightarrow> composite l t = composite (hd MOCK_LISTINGS) t"
    by (auto simp: eleven_listings_def)
qed

subsection \<open>Dates and the itinerary\<close>

lemma days_before_year_bounds:
  assumes "1 \<le> y" "y \<le> 9999"
  shows "0 \<le> days_before_year y"
    and "days_before_year y + 365 + (if is_leap y then 1 else 0) \<le> MAXORDINAL"
proof -
  define k where "k = y - 1"
  have k: "0 \<le> k" "k \<le> 9998" using assms by (simp_all add: k_def)
  have e: "days_before_year y = k * 365 + k div 4 - k div 100 + k div 400"
    by (simp add: days_before_year_def k_def Let_def)
  have a: "k div 100 \<le> k div 4" using k by (intro zdiv_mono2) simp_all
  have b: "0 \<le> k div 400" using k by simp
  show "0 \<le> days_before_year y" unfolding e using a b k by linarith
  show "days_before_year y + 365 + (if is_leap y then 1 else 0) \<le> MAXORDINAL"
  proof (cases "y = 9999")
    case True
    then show ?thesis by (simp add: days_before_year_def is_leap_def MAXORDINAL_def)
  next
    case False
    then have k': "k \<le> 9997" using k assms by (simp add: k_def)
    have c: "k div 4 \<le> 2499" using k' by simp
    have d: "k div 400 \<le> k div 100" using k by (intro zdiv_mono2) simp_all
    show ?thesis unfolding e MAXORDINAL_def using c d k' by (simp split: if_splits)
  qed
qed

lemma month_bounds:
  assumes "1 \<le> m" "m \<le> 12" "1 \<le> d" "d \<le> days_in_month y m"
  shows "0 \<le> days_before_month y m"
    and "days_before_month y m + d \<le> 365 + (if is_leap y then 1 else 0)"
proof -
  from assms(1,2) have "m \<in> {1, 2, 3, 4, 5, 6, 7, 8, 9, 10, 11, 12}" by simp presburger
  then have "0 \<le> days_before_month y m
      \<and> days_before_month y m + days_in_month y m \<le> 365 + (if is_leap y then 1 else 0)"
    by (auto simp: days_before_month_def days_in_month_def DAYS_IN_MONTH_def)
  then show "0 \<le> days_before_month y m"
    and "days_before_month y m + d \<le> 365 + (if is_leap y then 1 else 0)"
    using assms(4) by auto
qed

lemma parse_date_ordinal:
  assumes "parse_date s = Inr d"
  shows "1 \<le> toordinal d \<and> toordinal d \<le> MAXORDINAL"
proof -
  from assms have v: "1 \<le> year d" "year d \<le> 9999" "1 \<le> month d" "month d \<le> 12"
    "1 \<le> day d" "day d \<le> days_in_month (year d) (month d)"
    by (auto simp: parse_date_def split: if_splits option.splits)
  show ?thesis
    unfolding toordinal_def
    using days_before_year_bounds[OF v(1,2)] month_bounds[OF v(3,4,5,6)] v(5)
    by (auto split: if_splits)
qed

lemma for_each_map:
  "(\<And>x. x \<in> set xs \<Longrightarrow> f x = Inr (g x)) \<Longrightarrow> for_each f xs = Inr (map g xs)"
  by (induction xs) simp_all

lemma round_half_even_of_int: "round_half_even (of_int n) = n"
  by (simp add: round_half_even_def)

lemma round_float_of_int: "round_float (of_int n) k = of_int n"
proof -
  have "of_int n * (10::real) ^ k = of_int (n * 10 ^ k)" by simp
  then have "round_half_even (of_int n * 10 ^ k) = n * 10 ^ k"
    by (simp only: round_half_even_of_int)
  then show ?thesis by (simp add: round_float_def)
qed

lemma of_int_sum_list_map:
  "(of_int (sum_list (map f xs)) :: real) = sum_list (map (\<lambda>x. of_int (f x)) xs)"
  by (induction xs) simp_all

lemma balanced_defaults:
  "morning_opts ''balanced'' = Some ''Town center walk + scenic stop''"
  "afternoon_opts ''balanced'' = Some ''Lunch + one planned activity''"
  "evening_opts ''balanced'' = Some ''Dinner + optional stroll''"
  by (simp_all add: morning_opts_def afternoon_opts_def evening_opts_def)

lemma itinerary_day_Inr:
  assumes "0 < toordinal start + i" "toordinal start + i \<le> MAXORDINAL"
  shows "itinerary_day t start sty base_pp i = Inr (day_of t start sty base_pp i)"
  using assms
  by (simp add: itinerary_day_def date_add_days_def Let_def balanced_defaults day_of_def
      round_int_def mult.commute)

lemma generate_itinerary_Inr:
  assumes pa: "parse_date (start_date t) = Inr a" and pb: "parse_date (end_date t) = Inr b"
  shows "generate_itinerary t =
     Inr \<lparr>it_destination = destination t,
          days = map (\<lambda>i. day_of t a (strip (lower (style t)))
                          (dict_get base_pp_table (strip (lower (style t))) 40) (int i))
                   [0..<nat (max 1 (date_diff_days b a))],
          total_est_cost =
            of_int (\<Sum>i\<leftarrow>[0..<nat (max 1 (date_diff_days b a))].
                      (dict_get base_pp_table (strip (lower (style t))) 40 + 3 * (int i mod 3))
                        * travelers t),
          it_notes = itinerary_notes\<rparr>"
proof -
  let ?n = "max 1 (date_diff_days b a)"
  let ?sty = "strip (lower (style t))"
  let ?base = "dict_get base_pp_table ?sty 40"
  let ?g = "\<lambda>i. day_of t a ?sty ?base i"
  have oa: "1 \<le> toordinal a" "toordinal a \<le> MAXORDINAL"
    using parse_date_ordinal[OF pa] by simp_all
  have ob: "toordinal b \<le> MAXORDINAL" using parse_date_ordinal[OF pb] by simp
  have loop: "for_each (itinerary_day t a ?sty ?base) (map int [0..<nat ?n])
                = Inr (map ?g (map int [0..<nat ?n]))"
  proof (rule for_each_map)
    fix i assume "i \<in> set (map int [0..<nat ?n])"
    then have i: "0 \<le> i" "i < ?n" by auto
    have "toordinal a + i \<le> MAXORDINAL"
    proof (cases "1 \<le> date_diff_days b a")
      case True
      then have "i < toordinal b - toordinal a" using i by (simp add: date_diff_days_def)
      then show ?thesis using ob by simp
    next
      case False
      then have "i = 0" using i by simp
      then show ?thesis using oa by simp
    qed
    moreover have "0 < toordinal a + i" using oa i by simp
    ultimately show "itinerary_day t a ?sty ?base i = Inr (?g i)"
      by (intro itinerary_day_Inr)
  qed
  have cost: "sum_list (map est_cost (map ?g (map int [0..<nat ?n])))
        = of_int (\<Sum>i\<leftarrow>[0..<nat ?n]. (?base + 3 * (int i mod 3)) * travelers t)"
    unfolding of_int_sum_list_map by (simp add: comp_def day_of_def)
  show ?thesis
    unfolding generate_itinerary_def pa pb sum.case Let_def loop cost round_float_of_int
    by (simp add: comp_def)
qed

lemma slot_lookup:
  "sty \<in> recognized_styles \<Longrightarrow>
     morning_opts sty = Some (dict_get morning_opts sty x) \<and>
     afternoon_opts sty = Some (dict_get afternoon_opts sty y) \<and>
     evening_opts sty = Some (dict_get evening_opts sty z)"
  "sty \<notin> recognized_styles \<Longrightarrow>
     dict_get morning_opts sty x = x \<and> dict_get afternoon_opts sty y = y \<and>
     dict_get evening_opts sty z = z \<and> dict_get base_pp_table sty n = n"
  by (auto simp: recognized_styles_def dict_get_def morning_opts_def afternoon_opts_def
      evening_opts_def base_pp_table_def)

lemma base_pp_values:
  "dict_get base_pp_table ''relaxed'' 40 = 30" "dict_get base_pp_table ''packed'' 40 = 50"
  "dict_get base_pp_table ''foodie'' 40 = 55" "dict_get base_pp_table ''culture'' 40 = 45"
  "dict_get base_pp_table ''nightlife'' 40 = 55" "dict_get base_pp_table ''balanced'' 40 = 40"
  by (simp_all add: dict_get_def base_pp_table_def)

lemma parse_more_dates:
  "parse_date ''2024-02-28'' = Inr \<lparr>year = 2024, month = 2, day = 28\<rparr>"
  "parse_date ''2024-03-01'' = Inr \<lparr>year = 2024, month = 3, day = 1\<rparr>"
  by code_simp+

lemma example_date_diffs:
  "date_diff_days \<lparr>year = 2024, month = 1, day = 12\<rparr> \<lparr>year = 2024, month = 1, day = 10\<rparr> = 2"
  "date_diff_days \<lparr>year = 2024, month = 3, day = 1\<rparr> \<lparr>year = 2024, month = 2, day = 28\<rparr> = 2"
  "date_diff_days \<lparr>year = 2024, month = 2, day = 28\<rparr> \<lparr>year = 2024, month = 3, day = 1\<rparr> = - 2"
  by code_simp+

lemma example_styles:
  "strip (lower ''relaxed'') = ''relaxed''"
  "strip (lower '' Adventure '') = ''adventure''"
  "strip (lower ''  FOODIE'') = ''foodie''"
  by code_simp+

lemma itinerary_costs_general:
  assumes "parse_date (start_date t) = Inr a" "parse_date (end_date t) = Inr b"
  shows "\<exists>r. generate_itinerary t = Inr r \<and>
     int (length (days r)) = max 1 (date_diff_days b a) \<and>
     (\<forall>i<length (days r).
        est_cost (days r ! i) =
          of_int ((dict_get base_pp_table (strip (lower (style t))) 40 + 3 * (int i mod 3))
                    * travelers t)) \<and>
     total_est_cost r = sum_list (map est_cost (days r)) \<and>
     total_est_cost r =
       of_int (\<Sum>i\<leftarrow>[0..<length (days r)].
                 (dict_get base_pp_table (strip (lower (style t))) 40 + 3 * (int i mod 3))
                   * travelers t)"
  unfolding generate_itinerary_Inr[OF assms] of_int_sum_list_map
  by (simp add: day_of_def comp_def)

section \<open>Claims\<close>

subsection \<open>C2: budget fit score\<close>

text \<open>
  C2, as the code has it. For a positive budget and a price within it the score lies in
  [0.85, 1]. For a budget of at least 1e-6 (the floor of the denominator,
  \<^verbatim>\<open>max(nightly_budget, 1e-6)\<close>) and a price above it the score is
  \<open>clamp (1 - 1.4 * overrun) 0 1\<close> with overrun = (price - budget) / budget, and it is 0
  once the overrun is at least 1 / 1.4. For every positive budget and prices above it,
  a price with an overrun at least as large scores at most as much: the score never
  increases with the overrun, and nothing is said on whether it strictly decreases.
\<close>

theorem budget_fit_score_range_and_decay:
  "(0 < b \<and> p \<le> b \<longrightarrow> 0.85 \<le> budget_fit_score p b \<and> budget_fit_score p b \<le> 1) \<and>
   (1 / 1000000 \<le> b \<and> b < p \<longrightarrow>
      budget_fit_score p b = clamp (1 - 1.4 * ((p - b) / b)) 0 1 \<and>
      (1 / 1.4 \<le> (p - b) / b \<longrightarrow> budget_fit_score p b = 0)) \<and>
   (\<forall>p'. 0 < b \<and> b < p \<and> (p - b) / b \<le> (p' - b) / b
           \<longrightarrow> budget_fit_score p' b \<le> budget_fit_score p b)"
  using bfs_under[of b p] bfs_over[of b p] bfs_zero[of b p] bfs_mono[of b p]
  by blast

text \<open>
  At budget 70: price 65 scores within [0.85, 1]; price 140 (overrun 1) scores 0; price
  84 (overrun 0.2) scores at most what price 77 (overrun 0.1) scores.
\<close>

theorem budget_fit_score_range_and_decay_witness:
  "(0::real) < 70 \<and> (65::real) \<le> 70 \<and>
   0.85 \<le> budget_fit_score 65 70 \<and> budget_fit_score 65 70 \<le> 1 \<and>
   (1 / 1000000 :: real) \<le> 70 \<and> (70::real) < 140 \<and> (1 / 1.4 :: real) \<le> (140 - 70) / 70 \<and>
   budget_fit_score 140 70 = 0 \<and>
   (70::real) < 77 \<and> ((77 - 70) / 70 :: real) \<le> (84 - 70) / 70 \<and>
   budget_fit_score 84 70 \<le> budget_fit_score 77 70"
proof -
  have a: "0.85 \<le> budget_fit_score 65 70 \<and> budget_fit_score 65 70 \<le> 1"
    using budget_fit_score_range_and_decay[of 70 65] by simp
  have b: "budget_fit_score 140 70 = 0"
    using budget_fit_score_range_and_decay[of 70 140] by simp
  have c: "budget_fit_score 84 70 \<le> budget_fit_score 77 70"
  proof -
    have g: "(0::real) < 70 \<and> (70::real) < 77 \<and> ((77 - 70) / 70 :: real) \<le> (84 - 70) / 70"
      by simp
    show ?thesis using budget_fit_score_range_and_decay[of 70 77] g by blast
  qed
  show ?thesis using a b c by simp
qed

text \<open>
  The claim as written fails in two places. It quantifies over every positive budget:
  at budget 1e-7 and price 2e-7 the overrun fraction is 1, at least 1 / 1.4, and the
  score is 0.86, not 0, because below 1e-6 the denominator is the floor and not the
  budget. And it says strictly decreasing: computed in doubles, the price 72 against
  the budgets 56.96682047329927 and 56.966820473299265 (two doubles, the second with
  the larger overrun) gets the same positive score 0.6305489552950276 both times.
\<close>

theorem budget_fit_score_counterexample:
  "((0::real) < 1 / 10000000 \<and> (1 / 10000000 :: real) < 2 / 10000000 \<and>
    (1 / 1.4 :: real) \<le> (2 / 10000000 - 1 / 10000000) / (1 / 10000000) \<and>
    budget_fit_score (2 / 10000000) (1 / 10000000) = 0.86 \<and>
    budget_fit_score (2 / 10000000) (1 / 10000000) \<noteq> 0) \<and>
   (round_double 72 = 72 \<and> round_double budget_a = budget_a \<and>
    round_double budget_b = budget_b \<and>
    10 \<le> budget_b \<and> budget_b < budget_a \<and> budget_a < 72 \<and>
    (72 - budget_a) / budget_a < (72 - budget_b) / budget_b \<and>
    budget_fit_score_double 72 budget_a = 5679480080211084 / 2 ^ 53 \<and>
    budget_fit_score_double 72 budget_b = 5679480080211084 / 2 ^ 53 \<and>
    0 < budget_fit_score_double 72 budget_a)"
proof -
  have t: "(0::real) < 1 / 10000000 \<and> (1 / 10000000 :: real) < 2 / 10000000 \<and>
    (1 / 1.4 :: real) \<le> (2 / 10000000 - 1 / 10000000) / (1 / 10000000) \<and>
    budget_fit_score (2 / 10000000) (1 / 10000000) = 0.86 \<and>
    budget_fit_score (2 / 10000000) (1 / 10000000) \<noteq> 0"
    by (simp add: budget_fit_score_def clamp_def)
  have o: "10 \<le> budget_b \<and> budget_b < budget_a \<and> budget_a < 72 \<and>
    (72 - budget_a) / budget_a < (72 - budget_b) / budget_b"
    by (simp add: budget_a_def budget_b_def)
  have pos: "0 < budget_fit_score_double 72 budget_a"
    unfolding budget_fit_score_double_a by simp
  show ?thesis
    using t o pos budgets_are_doubles budget_fit_score_double_a budget_fit_score_double_b
    by blast
qed

subsection \<open>C3: the composite score\<close>

text \<open>
  C3. For a listing at a distance of at least 0 from the center (and any budget),
  \<open>score_listing\<close> returns 100 times
  \<open>clamp (0.40 * budget + 0.25 * quality + 0.20 * location + 0.15 * amenities + bonus) 0 1\<close>
  together with the four sub-scores, where the bonus is 0.12 if the lowercased area
  equals some lowercased preferred area and 0 otherwise; each sub-score lies in [0, 1]
  and the composite in [0, 100], whatever the magnitudes of the inputs.
\<close>

theorem score_listing_weighted_sum:
  assumes "0 \<le> distance_km_to_center l"
  shows "let b = budget_fit_score (nightly_price l) (nightly_budget t);
             q = quality_score (platform l) (rating l) (reviews l);
             loc = clamp (1 / (1 + 0.35 * distance_km_to_center l)) 0 1;
             a = amenities_score (amenities l) (must_haves t);
             bonus = (if \<exists>x\<in>set (prefer_areas t). lower (area l) = lower x then 0.12 else 0);
             total = 100 * clamp (0.40 * b + 0.25 * q + 0.20 * loc + 0.15 * a + bonus) 0 1
         in score_listing l t =
              Inr (total, [''budget'' \<mapsto> b, ''quality'' \<mapsto> q, ''location'' \<mapsto> loc,
                           ''amenities'' \<mapsto> a])
            \<and> location_score (distance_km_to_center l) = Inr loc
            \<and> 0 \<le> b \<and> b \<le> 1 \<and> 0 \<le> q \<and> q \<le> 1 \<and> 0 \<le> loc \<and> loc \<le> 1
            \<and> 0 \<le> a \<and> a \<le> 1 \<and> 0 \<le> total \<and> total \<le> 100"
proof -
  have c: "0 \<le> clamp x 0 1 \<and> clamp x 0 1 \<le> 1" for x
    using clamp_bounds[of 0 1 x] by simp
  have t: "0 \<le> 100 * clamp x 0 1 \<and> 100 * clamp x 0 1 \<le> 100" for x
    using c[of x] by simp
  show ?thesis
    unfolding Let_def
    using score_listing_Inr[OF assms, of t] location_score_Inr[OF assms]
      budget_fit_score_01[of "nightly_price l" "nightly_budget t"]
      quality_score_01[of "platform l" "rating l" "reviews l"]
      amenities_score_01[of "amenities l" "must_haves t"] c t
    by (simp only: area_bonus_eq mult.commute[of _ 100] simp_thms)
qed

text \<open>The first listing of the mock catalog against the example trip.\<close>

theorem score_listing_weighted_sum_witness:
  "0 \<le> distance_km_to_center (hd MOCK_LISTINGS) \<and>
   (\<exists>total ps. score_listing (hd MOCK_LISTINGS) example_trip = Inr (total, ps)
      \<and> 0 \<le> total \<and> total \<le> 100 \<and> ps ''amenities'' = Some 0.7
      \<and> ps ''budget'' = Some (budget_fit_score 65 70))"
proof -
  have d: "0 \<le> distance_km_to_center (hd MOCK_LISTINGS)"
    by (simp add: MOCK_LISTINGS_def mk_listing_def)
  have a: "amenities_score (amenities (hd MOCK_LISTINGS)) (must_haves example_trip) = 0.7"
    by (simp add: amenities_score_def example_trip_def)
  have b: "budget_fit_score (nightly_price (hd MOCK_LISTINGS)) (nightly_budget example_trip)
             = budget_fit_score 65 70"
    by (simp add: MOCK_LISTINGS_def mk_listing_def example_trip_def)
  show ?thesis
    using score_listing_weighted_sum[OF d, of example_trip] d
    unfolding Let_def a b by auto
qed

subsection \<open>C1: dealbreakers\<close>

text \<open>
  C1, as the code has it. If a listing's room type is exactly \<open>shared_room\<close> or
  \<open>private_room\<close> and some dealbreaker tag of the trip lowercases to it, the listing is
  in no recommendation that \<open>recommend_stays\<close> returns, whatever it would have scored.
\<close>

theorem dealbreaker_room_excluded:
  assumes "recommend_stays_with pr env t = Inr r"
    and "room_type l = ''shared_room'' \<or> room_type l = ''private_room''"
    and "\<exists>d\<in>set (dealbreakers t). lower d = room_type l"
  shows "l \<notin> set (map listing (recommendations r))"
proof
  assume "l \<in> set (map listing (recommendations r))"
  then have "l \<in> set (survivors pr env t)" using recommended_subset[OF assms(1)] by blast
  then have ok: "dealbreaker_ok (room_type l) (dealbreakers t)" by (simp add: survivors_def)
  have "room_type l \<in> set (map lower (dealbreakers t))" using assms(3) by force
  with assms(2) ok show False by (auto simp: dealbreaker_ok_def Let_def split: if_splits)
qed

text \<open>
  The mock catalog with the dealbreaker "Private_Room": the private room is fetched and
  not recommended.
\<close>

theorem dealbreaker_room_excluded_witness:
  "room_type (MOCK_LISTINGS ! 2) = ''private_room'' \<and>
   lower ''Private_Room'' = room_type (MOCK_LISTINGS ! 2) \<and>
   ''Private_Room'' \<in> set (dealbreakers trip_no_private) \<and>
   MOCK_LISTINGS ! 2 \<in> set (fetch_listings Map.empty trip_no_private) \<and>
   (\<exists>r. recommend_stays Map.empty trip_no_private = Inr r \<and>
        MOCK_LISTINGS ! 2 \<notin> set (map listing (recommendations r)))"
proof -
  have rt: "room_type (MOCK_LISTINGS ! 2) = ''private_room''"
    by (simp add: MOCK_LISTINGS_def mk_listing_def)
  have lw: "lower ''Private_Room'' = ''private_room''" by code_simp
  have db: "dealbreakers trip_no_private = [''Private_Room'']"
    by (simp add: trip_no_private_def)
  have mem: "MOCK_LISTINGS ! 2 \<in> set (fetch_listings Map.empty trip_no_private)"
    unfolding fetch_listings_def fetch_listings_no_env by (simp add: MOCK_LISTINGS_def)
  obtain r where r: "recommend_stays_with shipped_providers Map.empty trip_no_private = Inr r"
    using recommend_mock_total[of trip_no_private]
    by (auto simp: trip_no_private_def example_trip_def)
  have "MOCK_LISTINGS ! 2 \<notin> set (map listing (recommendations r))"
    using dealbreaker_room_excluded[OF r, of "MOCK_LISTINGS ! 2"] rt lw db by simp
  then show ?thesis using rt lw db mem r by (simp add: recommend_stays_def)
qed

text \<open>
  The claim as written covers all four room types. With the dealbreaker
  \<open>entire_place\<close> the mock catalog's entire-place chalet is still recommended: the
  filter only knows the two room types above.
\<close>

theorem dealbreaker_entire_place_counterexample:
  "room_type (MOCK_LISTINGS ! 1) = ''entire_place'' \<and>
   lower (room_type (MOCK_LISTINGS ! 1)) \<in> set (map lower (dealbreakers trip_no_entire)) \<and>
   (\<exists>r. recommend_stays Map.empty trip_no_entire = Inr r \<and>
        MOCK_LISTINGS ! 1 \<in> set (map listing (recommendations r)))"
proof -
  have rt: "room_type (MOCK_LISTINGS ! 1) = ''entire_place''"
    by (simp add: MOCK_LISTINGS_def mk_listing_def)
  have lw: "lower ''entire_place'' = ''entire_place''" by code_simp
  have db: "dealbreakers trip_no_entire = [''entire_place'']"
    by (simp add: trip_no_entire_def)
  obtain r where r: "recommend_stays_with shipped_providers Map.empty trip_no_entire = Inr r"
    using recommend_mock_total[of trip_no_entire]
    by (auto simp: trip_no_entire_def example_trip_def)
  have ok: "dealbreaker_ok rt [''entire_place'']" for rt
    by (simp add: dealbreaker_ok_def lw)
  have sv: "survivors shipped_providers Map.empty trip_no_entire = MOCK_LISTINGS"
    by (simp add: survivors_def fetch_listings_no_env db ok)
  have "length (survivors shipped_providers Map.empty trip_no_entire) \<le> 10"
    unfolding sv by (simp add: MOCK_LISTINGS_def)
  from recommended_all[OF r this]
  have "MOCK_LISTINGS ! 1 \<in> set (map listing (recommendations r))"
    unfolding sv by (simp add: MOCK_LISTINGS_def)
  then show ?thesis using rt lw db r by (simp add: recommend_stays_def)
qed

subsection \<open>C10: the room type is compared exactly\<close>

text \<open>
  C10. A room type other than the literals \<open>shared_room\<close> and \<open>private_room\<close>
  (differing in case or spelling) passes \<open>dealbreaker_ok\<close> for every dealbreaker list;
  a fetched listing with such a room type survives the filter of \<open>recommend_stays\<close>,
  and is recommended whenever at most 10 listings survive.
\<close>

theorem dealbreaker_compares_room_type_exactly:
  "(rt \<noteq> ''shared_room'' \<and> rt \<noteq> ''private_room'' \<longrightarrow> dealbreaker_ok rt dbs) \<and>
   (room_type l \<noteq> ''shared_room'' \<and> room_type l \<noteq> ''private_room''
      \<and> l \<in> set (fetch_listings_with pr env t)
    \<longrightarrow> l \<in> set (survivors pr env t) \<and>
        (\<forall>r. recommend_stays_with pr env t = Inr r \<and> length (survivors pr env t) \<le> 10
             \<longrightarrow> l \<in> set (map listing (recommendations r))))"
proof -
  have a: "dealbreaker_ok x ys" if "x \<noteq> ''shared_room''" "x \<noteq> ''private_room''" for x ys
    using that by (simp add: dealbreaker_ok_def Let_def)
  have b: "l \<in> set (survivors pr env t)"
    if "room_type l \<noteq> ''shared_room''" "room_type l \<noteq> ''private_room''"
       "l \<in> set (fetch_listings_with pr env t)"
    using that a[of "room_type l" "dealbreakers t"] by (simp add: survivors_def)
  show ?thesis using a b recommended_all[of pr env t] by blast
qed

text \<open>
  A provider's listing with room type "Shared_Room" against the dealbreaker
  "shared_room".
\<close>

theorem dealbreaker_compares_room_type_exactly_witness:
  "''Shared_Room'' \<noteq> ''shared_room'' \<and> ''Shared_Room'' \<noteq> ''private_room'' \<and>
   dealbreaker_ok ''Shared_Room'' [''shared_room''] \<and>
   room_type shared_caps_listing = ''Shared_Room'' \<and>
   dealbreakers trip_no_shared = [''shared_room''] \<and>
   shared_caps_listing \<in> set (fetch_listings_with one_listing_providers booking_env trip_no_shared) \<and>
   shared_caps_listing \<in> set (survivors one_listing_providers booking_env trip_no_shared) \<and>
   (\<exists>r. recommend_stays_with one_listing_providers booking_env trip_no_shared = Inr r \<and>
        shared_caps_listing \<in> set (map listing (recommendations r)))"
proof -
  have ne: "''Shared_Room'' \<noteq> ''shared_room''" "''Shared_Room'' \<noteq> ''private_room''" by simp_all
  have rt: "room_type shared_caps_listing = ''Shared_Room''"
    by (simp add: shared_caps_listing_def)
  have db: "dealbreakers trip_no_shared = [''shared_room'']" by (simp add: trip_no_shared_def)
  have mem: "shared_caps_listing
               \<in> set (fetch_listings_with one_listing_providers booking_env trip_no_shared)"
    by (simp add: fetch_one_listing)
  note th = dealbreaker_compares_room_type_exactly[where rt = "''Shared_Room''"
      and dbs = "[''shared_room'']" and l = shared_caps_listing
      and pr = one_listing_providers and env = booking_env and t = trip_no_shared]
  have ok: "dealbreaker_ok ''Shared_Room'' [''shared_room'']" using th ne by blast
  have sv: "shared_caps_listing \<in> set (survivors one_listing_providers booking_env trip_no_shared)"
    using th ne rt mem by simp
  have le: "length (survivors one_listing_providers booking_env trip_no_shared) \<le> 10"
    by (simp add: survivors_def fetch_one_listing)
  have "\<exists>r. recommend_stays_with one_listing_providers booking_env trip_no_shared = Inr r"
  proof (rule recommend_stays_total)
    show "parse_date (start_date trip_no_shared) = Inr \<lparr>year = 2024, month = 1, day = 10\<rparr>"
      by (simp add: trip_no_shared_def example_trip_def parse_example_start)
    show "parse_date (end_date trip_no_shared) = Inr \<lparr>year = 2024, month = 1, day = 12\<rparr>"
      by (simp add: trip_no_shared_def example_trip_def parse_example_end)
    fix l assume "l \<in> set (survivors one_listing_providers booking_env trip_no_shared)"
    then have "l = shared_caps_listing"
      using survivors_subset[of one_listing_providers booking_env trip_no_shared]
      by (auto simp: fetch_one_listing)
    then show "0 \<le> distance_km_to_center l"
      by (simp add: shared_caps_listing_def MOCK_LISTINGS_def mk_listing_def)
  qed
  then obtain r where
    r: "recommend_stays_with one_listing_providers booking_env trip_no_shared = Inr r" ..
  have "shared_caps_listing \<in> set (map listing (recommendations r))"
    using th ne rt mem r le by simp
  then show ?thesis using ne ok rt db mem sv r by blast
qed

subsection \<open>C7: the mock fallback\<close>



subsection \<open>C4: length, order and ties of the recommendations\<close>

text \<open>
  C4. With start and end dates that parse and listings at distances of at least 0,
  \<open>recommend_stays\<close> returns; and whenever it returns, the recommendations are
  exactly min(10, number of listings that survive the dealbreaker filter) many, their
  match scores (the composite scores rounded to one decimal) and their composite scores
  are non-increasing, and for every score value the recommended listings with that
  composite score are, in order, a prefix of the surviving listings with that composite
  score in catalog order: ties keep the catalog order.
\<close>

theorem recommendations_ranked:
  "((\<exists>a. parse_date (start_date t) = Inr a) \<and> (\<exists>b. parse_date (end_date t) = Inr b)
      \<and> (\<forall>l\<in>set (survivors pr env t). 0 \<le> distance_km_to_center l)
     \<longrightarrow> (\<exists>r. recommend_stays_with pr env t = Inr r)) \<and>
   (\<forall>r. recommend_stays_with pr env t = Inr r \<longrightarrow>
      length (recommendations r) = min 10 (length (survivors pr env t)) \<and>
      sorted_wrt (\<lambda>x y. y \<le> x) (map match_score (recommendations r)) \<and>
      sorted_wrt (\<lambda>x y. y \<le> x) (map (\<lambda>x. composite (listing x) t) (recommendations r)) \<and>
      map match_score (recommendations r)
        = map (\<lambda>x. round_float (composite (listing x) t) 1) (recommendations r) \<and>
      (\<forall>s. prefix (filter (\<lambda>l. composite l t = s) (map listing (recommendations r)))
                  (filter (\<lambda>l. composite l t = s) (survivors pr env t))))"
proof (intro conjI impI allI)
  assume h: "(\<exists>a. parse_date (start_date t) = Inr a) \<and> (\<exists>b. parse_date (end_date t) = Inr b)
      \<and> (\<forall>l\<in>set (survivors pr env t). 0 \<le> distance_km_to_center l)"
  then obtain a b where "parse_date (start_date t) = Inr a" "parse_date (end_date t) = Inr b"
    by blast
  then show "\<exists>r. recommend_stays_with pr env t = Inr r"
    using h by (intro recommend_stays_total[of t a b pr env]) auto
qed (use recommend_stays_ranking_all[of pr env t] in blast)+

text \<open>
  Eleven listings with the same score: the ten recommended are the first ten of the
  catalog, in catalog order.
\<close>

theorem recommendations_ranked_witness:
  "(\<exists>a. parse_date (start_date example_trip) = Inr a) \<and>
   (\<exists>b. parse_date (end_date example_trip) = Inr b) \<and>
   length (survivors eleven_providers booking_env example_trip) = 11 \<and>
   (\<exists>r. recommend_stays_with eleven_providers booking_env example_trip = Inr r \<and>
        length (recommendations r) = 10 \<and>
        sorted_wrt (\<lambda>x y. y \<le> x) (map match_score (recommendations r)) \<and>
        map listing (recommendations r) = take 10 eleven_listings)"
proof -
  let ?t = example_trip
  have pa: "\<exists>a. parse_date (start_date ?t) = Inr a"
    by (simp add: example_trip_def parse_example_start)
  have pb: "\<exists>b. parse_date (end_date ?t) = Inr b"
    by (simp add: example_trip_def parse_example_end)
  have len: "length (survivors eleven_providers booking_env ?t) = 11"
    by (simp add: survivors_eleven eleven_listings_def)
  have dist: "\<forall>l\<in>set (survivors eleven_providers booking_env ?t). 0 \<le> distance_km_to_center l"
    unfolding survivors_eleven by (auto simp: eleven_listings_def MOCK_LISTINGS_def mk_listing_def)
  note th = recommendations_ranked[of ?t eleven_providers booking_env]
  from th pa pb dist obtain r where
    r: "recommend_stays_with eleven_providers booking_env ?t = Inr r" by blast
  from th r have
    l: "length (recommendations r) = min 10 (length (survivors eleven_providers booking_env ?t))" and
    s: "sorted_wrt (\<lambda>x y. y \<le> x) (map match_score (recommendations r))" and
    p: "prefix (filter (\<lambda>l. composite l ?t = composite (hd MOCK_LISTINGS) ?t)
                  (map listing (recommendations r)))
               (filter (\<lambda>l. composite l ?t = composite (hd MOCK_LISTINGS) ?t)
                  (survivors eleven_providers booking_env ?t))"
    by blast+
  have l10: "length (recommendations r) = 10" using l len by simp
  have sub: "set (map listing (recommendations r)) \<subseteq> set eleven_listings"
    using recommended_subset[OF r] by (simp add: survivors_eleven)
  have f1: "filter (\<lambda>l. composite l ?t = composite (hd MOCK_LISTINGS) ?t)
              (map listing (recommendations r)) = map listing (recommendations r)"
    using sub composite_eleven by (intro filter_True) blast
  have f2: "filter (\<lambda>l. composite l ?t = composite (hd MOCK_LISTINGS) ?t) eleven_listings
              = eleven_listings"
    using composite_eleven by (intro filter_True) blast
  have "prefix (map listing (recommendations r)) eleven_listings"
    using p unfolding survivors_eleven f1 f2 .
  from prefix_take_length[OF this] have "map listing (recommendations r) = take 10 eleven_listings"
    using l10 by simp
  then show ?thesis using pa pb len r l10 s by blast
qed

subsection \<open>C8: the explanation lines\<close>

text \<open>
  C8. For a breakdown that holds a quality and a location score, \<open>explain_listing\<close>
  returns its lines in the fixed order: first the budget line (within budget when
  the price is at most the budget, else over budget by the difference), second the
  quality line (strong when quality is at least 0.8, else the caution line when
  there are fewer than 50 reviews, else the solid line), third the location line
  (convenient when location is at least 0.6, else farther), and a fourth line exactly
  when the trip has must-have amenities: the missing tags (compared in lower case),
  or that all are met.
\<close>

theorem explain_listing_lines:
  assumes "ps ''quality'' = Some q" "ps ''location'' = Some loc"
  shows "\<exists>w. explain_listing l t ps = Inr w \<and>
     length w = (if must_haves t = [] then 3 else 4) \<and>
     w ! 0 = (if nightly_price l \<le> nightly_budget t
              then Within_budget (nightly_price l) (nightly_budget t)
              else Over_budget (nightly_price l - nightly_budget t)) \<and>
     w ! 1 = (if 0.8 \<le> q then Strong_quality (rating l) (reviews l)
              else if reviews l < 50 then Fewer_reviews
              else Solid_rating (rating l) (reviews l)) \<and>
     w ! 2 = (if 0.6 \<le> loc then Convenient_location (distance_km_to_center l)
              else Farther_location (distance_km_to_center l)) \<and>
     (must_haves t \<noteq> [] \<longrightarrow>
        w ! 3 = (let missing = filter (\<lambda>m. \<not> (\<exists>x\<in>set (amenities l). lower x = lower m))
                                 (must_haves t)
                 in if missing = [] then Meets_all else Missing missing))"
proof -
  have f: "filter (\<lambda>m. lower m \<notin> set (map lower (amenities l))) (must_haves t)
         = filter (\<lambda>m. \<not> (\<exists>x\<in>set (amenities l). lower x = lower m)) (must_haves t)"
  proof (rule filter_cong[OF refl])
    fix m
    have "lower m \<in> lower ` set (amenities l) \<longleftrightarrow> (\<exists>x\<in>set (amenities l). lower m = lower x)"
      by (rule image_iff)
    also have "\<dots> \<longleftrightarrow> (\<exists>x\<in>set (amenities l). lower x = lower m)" by (auto intro: sym)
    finally show "(lower m \<notin> set (map lower (amenities l)))
                    = (\<not> (\<exists>x\<in>set (amenities l). lower x = lower m))" by simp
  qed
  show ?thesis
    unfolding explain_listing_def Let_def assms option.case f
    by (simp add: nth_append)
qed

text \<open>
  The first mock listing, must-haves WiFi and pool, quality 0.9 and location 0.5.
\<close>

theorem explain_listing_lines_witness:
  "example_parts ''quality'' = Some 0.9 \<and> example_parts ''location'' = Some 0.5 \<and>
   must_haves trip_with_musts \<noteq> [] \<and>
   explain_listing (hd MOCK_LISTINGS) trip_with_musts example_parts
     = Inr [Within_budget 65 70, Strong_quality 8.4 780, Farther_location 0.6,
            Missing [''pool'']]"
proof -
  have q: "example_parts ''quality'' = Some 0.9" and lo: "example_parts ''location'' = Some 0.5"
    by (simp_all add: example_parts_def)
  have m: "must_haves trip_with_musts = [''WiFi'', ''pool'']"
    by (simp add: trip_with_musts_def)
  have am: "amenities (hd MOCK_LISTINGS) = [''wifi'', ''heating'', ''parking'']"
    by (simp add: MOCK_LISTINGS_def mk_listing_def)
  have lw: "map lower [''wifi'', ''heating'', ''parking'', ''WiFi'', ''pool'']
              = [''wifi'', ''heating'', ''parking'', ''wifi'', ''pool'']"
    by code_simp
  have miss: "filter (\<lambda>m. \<not> (\<exists>x\<in>set (amenities (hd MOCK_LISTINGS)). lower x = lower m))
                (must_haves trip_with_musts) = [''pool'']"
    unfolding am m using lw by simp
  obtain w where
    w: "explain_listing (hd MOCK_LISTINGS) trip_with_musts example_parts = Inr w" and
    len: "length w = (if must_haves trip_with_musts = [] then 3 else 4)" and
    w0: "w ! 0 = (if nightly_price (hd MOCK_LISTINGS) \<le> nightly_budget trip_with_musts
              then Within_budget (nightly_price (hd MOCK_LISTINGS)) (nightly_budget trip_with_musts)
              else Over_budget (nightly_price (hd MOCK_LISTINGS) - nightly_budget trip_with_musts))" and
    w1: "w ! 1 = (if (0.8::real) \<le> 0.9 then Strong_quality (rating (hd MOCK_LISTINGS)) (reviews (hd MOCK_LISTINGS))
              else if reviews (hd MOCK_LISTINGS) < 50 then Fewer_reviews
              else Solid_rating (rating (hd MOCK_LISTINGS)) (reviews (hd MOCK_LISTINGS)))" and
    w2: "w ! 2 = (if (0.6::real) \<le> 0.5 then Convenient_location (distance_km_to_center (hd MOCK_LISTINGS))
              else Farther_location (distance_km_to_center (hd MOCK_LISTINGS)))" and
    w3: "must_haves trip_with_musts \<noteq> [] \<longrightarrow>
        w ! 3 = (let missing = filter (\<lambda>m. \<not> (\<exists>x\<in>set (amenities (hd MOCK_LISTINGS)). lower x = lower m))
                                 (must_haves trip_with_musts)
                 in if missing = [] then Meets_all else Missing missing)"
    using explain_listing_lines[OF q lo, of "hd MOCK_LISTINGS" trip_with_musts] by blast
  have l4: "length w = 4" using len m by simp
  have e0: "w ! 0 = Within_budget 65 70"
    using w0 by (simp add: MOCK_LISTINGS_def mk_listing_def trip_with_musts_def example_trip_def)
  have e1: "w ! 1 = Strong_quality 8.4 780"
    using w1 by (simp add: MOCK_LISTINGS_def mk_listing_def)
  have e2: "w ! 2 = Farther_location 0.6"
    using w2 by (simp add: MOCK_LISTINGS_def mk_listing_def)
  have e3: "w ! 3 = Missing [''pool'']"
    using w3 m unfolding miss by simp
  have "w = [w ! 0, w ! 1, w ! 2, w ! 3]"
    using l4 by (intro nth_equalityI) (auto simp: nth_Cons' less_Suc_eq numeral_eq_Suc)
  then have "w = [Within_budget 65 70, Strong_quality 8.4 780, Farther_location 0.6,
            Missing [''pool'']]"
    unfolding e0 e1 e2 e3 .
  then show ?thesis using q lo m w by simp
qed

subsection \<open>C5: days and slot texts of the itinerary\<close>

text \<open>
  C5. For a trip whose start and end dates parse, \<open>generate_itinerary\<close> returns an
  itinerary of exactly max(1, (end - start).days) days, and on each day the morning,
  afternoon and evening texts are the entries of the three slot tables for the style
  (lowercased, then stripped) when it is one of the six keys, and the entries for
  \<open>balanced\<close> otherwise.
\<close>

theorem itinerary_days_and_slots:
  assumes "parse_date (start_date t) = Inr a" "parse_date (end_date t) = Inr b"
  shows "\<exists>r. generate_itinerary t = Inr r \<and>
     int (length (days r)) = max 1 (date_diff_days b a) \<and>
     (\<forall>d\<in>set (days r).
        (strip (lower (style t)) \<in> recognized_styles \<longrightarrow>
           morning_opts (strip (lower (style t))) = Some (morning d) \<and>
           afternoon_opts (strip (lower (style t))) = Some (afternoon d) \<and>
           evening_opts (strip (lower (style t))) = Some (evening d)) \<and>
        (strip (lower (style t)) \<notin> recognized_styles \<longrightarrow>
           morning_opts ''balanced'' = Some (morning d) \<and>
           afternoon_opts ''balanced'' = Some (afternoon d) \<and>
           evening_opts ''balanced'' = Some (evening d)))"
  unfolding generate_itinerary_Inr[OF assms]
  using slot_lookup[of "strip (lower (style t))"]
  by (auto simp: day_of_def balanced_defaults)

text \<open>
  Style "  FOODIE" with the end date two days before the start date: one day, with the
  foodie texts.
\<close>

theorem itinerary_days_and_slots_witness:
  "parse_date (start_date trip_foodie_backwards) = Inr \<lparr>year = 2024, month = 3, day = 1\<rparr> \<and>
   parse_date (end_date trip_foodie_backwards) = Inr \<lparr>year = 2024, month = 2, day = 28\<rparr> \<and>
   strip (lower (style trip_foodie_backwards)) = ''foodie'' \<and>
   (\<exists>r. generate_itinerary trip_foodie_backwards = Inr r \<and>
        length (days r) = 1 \<and>
        (\<forall>d\<in>set (days r).
           morning d = ''Local caf'' @ [CHR 0xE9] @ '' + pastry stop'' \<and>
           afternoon d = ''Try local tagine + tea time'' \<and>
           evening d = ''Dinner + dessert tasting''))"
proof -
  let ?t = trip_foodie_backwards
  have pa: "parse_date (start_date ?t) = Inr \<lparr>year = 2024, month = 3, day = 1\<rparr>"
    by (simp add: trip_foodie_backwards_def parse_more_dates)
  have pb: "parse_date (end_date ?t) = Inr \<lparr>year = 2024, month = 2, day = 28\<rparr>"
    by (simp add: trip_foodie_backwards_def parse_more_dates)
  have st: "strip (lower (style ?t)) = ''foodie''"
    by (simp add: trip_foodie_backwards_def example_styles)
  have rec: "''foodie'' \<in> recognized_styles" by (simp add: recognized_styles_def)
  have tab: "morning_opts ''foodie'' = Some (''Local caf'' @ [CHR 0xE9] @ '' + pastry stop'')"
    "afternoon_opts ''foodie'' = Some ''Try local tagine + tea time''"
    "evening_opts ''foodie'' = Some ''Dinner + dessert tasting''"
    by (simp_all add: morning_opts_def afternoon_opts_def evening_opts_def)
  from itinerary_days_and_slots[OF pa pb] obtain r where
    r: "generate_itinerary ?t = Inr r" and
    n: "int (length (days r)) = max 1 (date_diff_days \<lparr>year = 2024, month = 2, day = 28\<rparr>
                                        \<lparr>year = 2024, month = 3, day = 1\<rparr>)" and
    sl: "\<forall>d\<in>set (days r).
        (strip (lower (style ?t)) \<in> recognized_styles \<longrightarrow>
           morning_opts (strip (lower (style ?t))) = Some (morning d) \<and>
           afternoon_opts (strip (lower (style ?t))) = Some (afternoon d) \<and>
           evening_opts (strip (lower (style ?t))) = Some (evening d)) \<and>
        (strip (lower (style ?t)) \<notin> recognized_styles \<longrightarrow>
           morning_opts ''balanced'' = Some (morning d) \<and>
           afternoon_opts ''balanced'' = Some (afternoon d) \<and>
           evening_opts ''balanced'' = Some (evening d))"
    by blast
  have len: "length (days r) = 1" using n by (simp add: example_date_diffs)
  have "\<forall>d\<in>set (days r).
           morning d = ''Local caf'' @ [CHR 0xE9] @ '' + pastry stop'' \<and>
           afternoon d = ''Try local tagine + tea time'' \<and>
           evening d = ''Dinner + dessert tasting''"
    using sl rec unfolding st tab by auto
  then show ?thesis using pa pb st r len by blast
qed

subsection \<open>C6: the cost of a day\<close>

text \<open>
  C6. For a trip whose dates parse, day \<open>i\<close> of the itinerary costs
  (base + 3 * (i mod 3)) * travelers, where base is the entry of the base cost table for
  the style (lowercased, then stripped), 40 for a style that is not one of the six keys.
  For the example trip (2024-01-10 to 2024-01-12, 2 travelers, style relaxed) the
  itinerary has exactly 2 days costing 60 and 66, and the total is 126.
\<close>

theorem itinerary_day_cost:
  "(parse_date (start_date t) = Inr a \<and> parse_date (end_date t) = Inr b \<longrightarrow>
      (\<exists>r. generate_itinerary t = Inr r \<and>
         int (length (days r)) = max 1 (date_diff_days b a) \<and>
         (\<forall>i<length (days r).
            est_cost (days r ! i) =
              of_int ((dict_get base_pp_table (strip (lower (style t))) 40 + 3 * (int i mod 3))
                        * travelers t)))) \<and>
   (\<forall>sty. sty \<notin> recognized_styles \<longrightarrow> dict_get base_pp_table sty 40 = 40) \<and>
   (\<exists>r. generate_itinerary example_trip = Inr r \<and> length (days r) = 2 \<and>
        est_cost (days r ! 0) = 60 \<and> est_cost (days r ! 1) = 66 \<and> total_est_cost r = 126)"
proof (intro conjI impI allI)
  assume "parse_date (start_date t) = Inr a \<and> parse_date (end_date t) = Inr b"
  then show "\<exists>r. generate_itinerary t = Inr r \<and>
         int (length (days r)) = max 1 (date_diff_days b a) \<and>
         (\<forall>i<length (days r).
            est_cost (days r ! i) =
              of_int ((dict_get base_pp_table (strip (lower (style t))) 40 + 3 * (int i mod 3))
                        * travelers t))"
    using itinerary_costs_general[of t a b] by blast
next
  fix sty :: string assume "sty \<notin> recognized_styles"
  then show "dict_get base_pp_table sty 40 = 40" using slot_lookup(2)[of sty] by blast
next
  have pa: "parse_date (start_date example_trip) = Inr \<lparr>year = 2024, month = 1, day = 10\<rparr>"
    by (simp add: example_trip_def parse_example_start)
  have pb: "parse_date (end_date example_trip) = Inr \<lparr>year = 2024, month = 1, day = 12\<rparr>"
    by (simp add: example_trip_def parse_example_end)
  have st: "strip (lower (style example_trip)) = ''relaxed''"
    by (simp add: example_trip_def example_styles)
  have tr: "travelers example_trip = 2" by (simp add: example_trip_def)
  obtain r where r: "generate_itinerary example_trip = Inr r" and
    n: "int (length (days r)) = max 1 (date_diff_days \<lparr>year = 2024, month = 1, day = 12\<rparr>
                                        \<lparr>year = 2024, month = 1, day = 10\<rparr>)" and
    c: "\<forall>i<length (days r).
        est_cost (days r ! i) =
          of_int ((dict_get base_pp_table (strip (lower (style example_trip))) 40
                     + 3 * (int i mod 3)) * travelers example_trip)" and
    tot: "total_est_cost r =
       of_int (\<Sum>i\<leftarrow>[0..<length (days r)].
                 (dict_get base_pp_table (strip (lower (style example_trip))) 40
                    + 3 * (int i mod 3)) * travelers example_trip)"
    using itinerary_costs_general[OF pa pb] by blast
  have len: "length (days r) = 2" using n by (simp add: example_date_diffs)
  have c0: "est_cost (days r ! 0) = 60" using c len by (simp add: st tr base_pp_values)
  have c1: "est_cost (days r ! 1) = 66" using c len by (simp add: st tr base_pp_values)
  have up: "[0..<2] = [0, Suc 0]" by (simp add: upt_rec)
  have "total_est_cost r = 126" unfolding tot len up by (simp add: st tr base_pp_values)
  then show "\<exists>r. generate_itinerary example_trip = Inr r \<and> length (days r) = 2 \<and>
        est_cost (days r ! 0) = 60 \<and> est_cost (days r ! 1) = 66 \<and> total_est_cost r = 126"
    using r len c0 c1 by blast
qed

text \<open>
  Three travelers, style " Adventure " (not a key), 2024-02-28 to 2024-03-01: two days
  costing 120 and 129.
\<close>

theorem itinerary_day_cost_witness:
  "parse_date (start_date trip_adventure) = Inr \<lparr>year = 2024, month = 2, day = 28\<rparr> \<and>
   parse_date (end_date trip_adventure) = Inr \<lparr>year = 2024, month = 3, day = 1\<rparr> \<and>
   strip (lower (style trip_adventure)) = ''adventure'' \<and>
   ''adventure'' \<notin> recognized_styles \<and>
   dict_get base_pp_table ''adventure'' 40 = 40 \<and>
   (\<exists>r. generate_itinerary trip_adventure = Inr r \<and> length (days r) = 2 \<and>
        est_cost (days r ! 0) = 120 \<and> est_cost (days r ! 1) = 129)"
proof -
  let ?t = trip_adventure
  have pa: "parse_date (start_date ?t) = Inr \<lparr>year = 2024, month = 2, day = 28\<rparr>"
    by (simp add: trip_adventure_def parse_more_dates)
  have pb: "parse_date (end_date ?t) = Inr \<lparr>year = 2024, month = 3, day = 1\<rparr>"
    by (simp add: trip_adventure_def parse_more_dates)
  have st: "strip (lower (style ?t)) = ''adventure''"
    by (simp add: trip_adventure_def example_styles)
  have tr: "travelers ?t = 3" by (simp add: trip_adventure_def)
  have nr: "''adventure'' \<notin> recognized_styles" by (simp add: recognized_styles_def)
  note th = itinerary_day_cost[of ?t "\<lparr>year = 2024, month = 2, day = 28\<rparr>"
      "\<lparr>year = 2024, month = 3, day = 1\<rparr>"]
  have base: "dict_get base_pp_table ''adventure'' 40 = 40" using th nr by blast
  from th pa pb obtain r where r: "generate_itinerary ?t = Inr r" and
    n: "int (length (days r)) = max 1 (date_diff_days \<lparr>year = 2024, month = 3, day = 1\<rparr>
                                        \<lparr>year = 2024, month = 2, day = 28\<rparr>)" and
    c: "\<forall>i<length (days r).
        est_cost (days r ! i) =
          of_int ((dict_get base_pp_table (strip (lower (style ?t))) 40
                     + 3 * (int i mod 3)) * travelers ?t)"
    by blast
  have len: "length (days r) = 2" using n by (simp add: example_date_diffs)
  have c0: "est_cost (days r ! 0) = 120" using c len by (simp add: st tr base)
  have c1: "est_cost (days r ! 1) = 129" using c len by (simp add: st tr base)
  show ?thesis using pa pb st nr base r len c0 c1 by blast
qed

subsection \<open>C9: day costs are whole numbers\<close>

text \<open>
  C9. For a trip whose dates parse, every day cost is the integer
  (base + 3 * (i mod 3)) * travelers: rounding that integer to 2 digits returns it, the
  stored cost is that integer as a float, and rounding the stored cost to 2 decimals
  would not change it. The total is exactly the sum of the day costs (the final rounding
  to 2 decimals changes nothing) and is a whole number.
\<close>

theorem itinerary_costs_integral:
  assumes "parse_date (start_date t) = Inr a" "parse_date (end_date t) = Inr b"
  shows "\<exists>r. generate_itinerary t = Inr r \<and>
     (\<forall>i<length (days r).
        (let est = (dict_get base_pp_table (strip (lower (style t))) 40 + 3 * (int i mod 3))
                     * travelers t
         in round_int est 2 = est \<and> est_cost (days r ! i) = of_int est \<and>
            round_float (est_cost (days r ! i)) 2 = est_cost (days r ! i))) \<and>
     total_est_cost r = sum_list (map est_cost (days r)) \<and>
     total_est_cost r \<in> \<int>"
proof -
  obtain r where r: "generate_itinerary t = Inr r" and
    c: "\<forall>i<length (days r).
        est_cost (days r ! i) =
          of_int ((dict_get base_pp_table (strip (lower (style t))) 40 + 3 * (int i mod 3))
                    * travelers t)" and
    tot: "total_est_cost r = sum_list (map est_cost (days r))" and
    tot': "total_est_cost r =
       of_int (\<Sum>i\<leftarrow>[0..<length (days r)].
                 (dict_get base_pp_table (strip (lower (style t))) 40 + 3 * (int i mod 3))
                   * travelers t)"
    using itinerary_costs_general[OF assms] by blast
  have z: "total_est_cost r \<in> \<int>" unfolding tot' by (rule Ints_of_int)
  have "\<forall>i<length (days r).
        (let est = (dict_get base_pp_table (strip (lower (style t))) 40 + 3 * (int i mod 3))
                     * travelers t
         in round_int est 2 = est \<and> est_cost (days r ! i) = of_int est \<and>
            round_float (est_cost (days r ! i)) 2 = est_cost (days r ! i))"
  proof (intro allI impI)
    fix i assume "i < length (days r)"
    with c have e: "est_cost (days r ! i) =
          of_int ((dict_get base_pp_table (strip (lower (style t))) 40 + 3 * (int i mod 3))
                    * travelers t)" by blast
    have ri: "round_int n 2 = n" for n by (simp add: round_int_def)
    show "let est = (dict_get base_pp_table (strip (lower (style t))) 40 + 3 * (int i mod 3))
                     * travelers t
         in round_int est 2 = est \<and> est_cost (days r ! i) = of_int est \<and>
            round_float (est_cost (days r ! i)) 2 = est_cost (days r ! i)"
      unfolding Let_def e round_float_of_int ri by (intro conjI refl)
  qed
  then show ?thesis using r tot z by blast
qed

text \<open>The example trip.\<close>

theorem itinerary_costs_integral_witness:
  "parse_date (start_date example_trip) = Inr \<lparr>year = 2024, month = 1, day = 10\<rparr> \<and>
   parse_date (end_date example_trip) = Inr \<lparr>year = 2024, month = 1, day = 12\<rparr> \<and>
   (\<exists>r. generate_itinerary example_trip = Inr r \<and>
        total_est_cost r = sum_list (map est_cost (days r)) \<and> total_est_cost r \<in> \<int>)"
proof -
  have pa: "parse_date (start_date example_trip) = Inr \<lparr>year = 2024, month = 1, day = 10\<rparr>"
    by (simp add: example_trip_def parse_example_start)
  have pb: "parse_date (end_date example_trip) = Inr \<lparr>year = 2024, month = 1, day = 12\<rparr>"
    by (simp add: example_trip_def parse_example_end)
  show ?thesis using itinerary_costs_integral[OF pa pb] pa pb by blast
qed

end
